theory Spec2Isabelle
  imports Main "HOL-Library.Word" "HOL-Library.Sublist"
begin

section \<open>AgoraLearn chat page: a shallow embedding of src/app/chat/page.tsx\<close>

text \<open>
  The page is one React component: a record of view state, handlers that update it, and
  one pure helper that cuts a message into text and math spans. JavaScript strings are
  sequences of 16-bit code units, and both the regular expression of the renderer (no
  \<open>u\<close> flag) and \<open>String.prototype.trim\<close> work on code units, so a string is a list of
  16-bit words here. \<open>js\<close> turns an ASCII literal into such a string.
\<close>

type_synonym code_unit = "16 word"
type_synonym js_string = "code_unit list"

definition js :: "string \<Rightarrow> js_string" where
  "js s = map of_char s"

definition dollar :: code_unit where
  "dollar = 0x24"

definition slice :: "js_string \<Rightarrow> nat \<Rightarrow> nat \<Rightarrow> js_string" where
  \<comment> \<open>\<open>content.slice(a, b)\<close> for non-negative integer arguments\<close>
  "slice content a b = take (b - a) (drop a content)"

section \<open>The math-span renderer\<close>

subsection \<open>The regular expression\<close>

text \<open>
  Line 35: \<open>/\$\$(.*?)\$\$|\$(.*?)\$/gs\<close>. The engine is the JavaScript runtime's; what is
  modelled is the meaning of this one pattern. With the \<open>s\<close> flag the dot matches every
  code unit. A lazy \<open>(.*?)\<close> followed by a literal takes the shortest text after which the
  literal stands (\<open>lazy_until\<close>). The first alternative is tried before the second at
  each start position, and start positions are tried from \<open>lastIndex\<close> upwards
  (\<open>regex_exec\<close>, the \<open>g\<close> flag).
\<close>

fun lazy_until :: "js_string \<Rightarrow> js_string \<Rightarrow> js_string option" where
  "lazy_until d [] = (if d = [] then Some [] else None)"
| "lazy_until d (c # cs) =
     (if prefix d (c # cs) then Some [] else map_option ((#) c) (lazy_until d cs))"

text \<open>A match at the head of a text: capture group 1, capture group 2, matched length.\<close>

type_synonym groups = "js_string option \<times> js_string option \<times> nat"

definition match_block :: "js_string \<Rightarrow> groups option" where
  "match_block s =
     (if prefix [dollar, dollar] s
      then map_option (\<lambda>b. (Some b, None, length b + 4)) (lazy_until [dollar, dollar] (drop 2 s))
      else None)"

definition match_inline :: "js_string \<Rightarrow> groups option" where
  "match_inline s =
     (if prefix [dollar] s
      then map_option (\<lambda>b. (None, Some b, length b + 2)) (lazy_until [dollar] (drop 1 s))
      else None)"

definition match_here :: "js_string \<Rightarrow> groups option" where
  "match_here s = (case match_block s of Some m \<Rightarrow> Some m | None \<Rightarrow> match_inline s)"

record regex_match =
  m_index :: nat
  m_1 :: "js_string option"
  m_2 :: "js_string option"
  m_lastIndex :: nat

function regex_exec :: "js_string \<Rightarrow> nat \<Rightarrow> regex_match option" where
  "regex_exec content i =
     (if length content < i then None
      else case match_here (drop i content) of
        Some (g1, g2, n) \<Rightarrow>
          Some \<lparr>m_index = i, m_1 = g1, m_2 = g2, m_lastIndex = i + n\<rparr>
      | None \<Rightarrow> regex_exec content (Suc i))"
  by pat_completeness auto
termination
  by (relation "measure (\<lambda>(content, i). Suc (length content) - i)") auto

declare regex_exec.simps [simp del]

subsection \<open>renderMathInline (lines 31-54)\<close>

text \<open>
  The React keys are template strings over \<open>mathIndex\<close>; the elements are a plain
  \<open>span\<close>, a \<open>BlockMath\<close> and an \<open>InlineMath\<close>. \<open>if (match[1])\<close> tests JavaScript
  truthiness: a group that did not take part is \<open>undefined\<close>, and the empty string is
  falsy as well. \<open>truthy_string\<close> is that test for a value that is a string or
  \<open>undefined\<close>/\<open>null\<close> (\<open>None\<close>).
\<close>

datatype key = KeyText nat | KeyBlock nat | KeyInline nat | KeyTextEnd

datatype element =
  Span key js_string
| BlockMath key js_string
| InlineMath key js_string

fun truthy_string :: "js_string option \<Rightarrow> bool" where
  "truthy_string None = False"
| "truthy_string (Some s) = (s \<noteq> [])"

definition push_text :: "js_string \<Rightarrow> nat \<Rightarrow> nat \<Rightarrow> regex_match \<Rightarrow> element list \<Rightarrow> element list" where
  \<comment> \<open>lines 39-41\<close>
  "push_text content lastIndex mathIndex m elements =
     (if m_index m > lastIndex
      then elements @ [Span (KeyText mathIndex) (slice content lastIndex (m_index m))]
      else elements)"

definition push_math :: "nat \<Rightarrow> regex_match \<Rightarrow> element list \<Rightarrow> element list" where
  \<comment> \<open>lines 42-46\<close>
  "push_math mathIndex m elements =
     (if truthy_string (m_1 m) then elements @ [BlockMath (KeyBlock mathIndex) (the (m_1 m))]
      else if truthy_string (m_2 m) then elements @ [InlineMath (KeyInline mathIndex) (the (m_2 m))]
      else elements)"

lemma lazy_until_length: "lazy_until d s = Some b \<Longrightarrow> length b + length d \<le> length s"
proof (induction s arbitrary: b)
  case Nil
  then show ?case by (simp split: if_splits)
next
  case (Cons c cs)
  show ?case
  proof (cases "prefix d (c # cs)")
    case True
    with Cons.prems have "b = []" by simp
    with prefix_length_le [OF True] show ?thesis by simp
  next
    case False
    with Cons.prems obtain b' where b': "lazy_until d cs = Some b'" "b = c # b'"
      by auto
    from Cons.IH [OF b'(1)] b'(2) show ?thesis by simp
  qed
qed

lemma match_here_length:
  assumes "match_here s = Some (g1, g2, n)"
  shows "2 \<le> n \<and> n \<le> length s"
proof (cases "match_block s")
  case None
  with assms have mi: "match_inline s = Some (g1, g2, n)"
    by (simp add: match_here_def)
  then obtain b where b: "prefix [dollar] s" "lazy_until [dollar] (drop 1 s) = Some b" "n = length b + 2"
    by (auto simp: match_inline_def split: if_splits)
  from b(1) have "1 \<le> length s" by (auto simp: prefix_def)
  with lazy_until_length [OF b(2)] b(3) show ?thesis by simp
next
  case (Some m)
  with assms have mb: "match_block s = Some (g1, g2, n)"
    by (simp add: match_here_def)
  then obtain b where b: "prefix [dollar, dollar] s"
      "lazy_until [dollar, dollar] (drop 2 s) = Some b" "n = length b + 4"
    by (auto simp: match_block_def split: if_splits)
  from b(1) have "2 \<le> length s" by (auto simp: prefix_def)
  with lazy_until_length [OF b(2)] b(3) show ?thesis by simp
qed

lemma regex_exec_bounds:
  "regex_exec content i = Some m \<Longrightarrow>
     i \<le> m_index m \<and> m_index m + 2 \<le> m_lastIndex m \<and> m_lastIndex m \<le> length content"
proof (induction content i rule: regex_exec.induct)
  case (1 content i)
  show ?case
  proof (cases "length content < i")
    case True
    with "1.prems" show ?thesis by (simp add: regex_exec.simps)
  next
    case le: False
    show ?thesis
    proof (cases "match_here (drop i content)")
      case None
      with le "1.prems" have "regex_exec content (Suc i) = Some m"
        by (simp add: regex_exec.simps [of content i])
      from "1.IH" [OF le None this] show ?thesis by simp
    next
      case (Some g)
      obtain g1 g2 n where g: "g = (g1, g2, n)" by (cases g)
      from match_here_length [OF Some [unfolded g]] have "2 \<le> n" "n \<le> length content - i"
        by simp_all
      moreover from le Some g "1.prems"
      have "m = \<lparr>m_index = i, m_1 = g1, m_2 = g2, m_lastIndex = i + n\<rparr>"
        by (simp add: regex_exec.simps [of content i])
      ultimately show ?thesis using le by simp
    qed
  qed
qed

function render_loop :: "js_string \<Rightarrow> nat \<Rightarrow> nat \<Rightarrow> element list \<Rightarrow> element list \<times> nat" where
  \<comment> \<open>the \<open>while\<close> of lines 38-49; returns the elements and the final \<open>lastIndex\<close>\<close>
  "render_loop content lastIndex mathIndex elements =
     (case regex_exec content lastIndex of
        None \<Rightarrow> (elements, lastIndex)
      | Some m \<Rightarrow>
          render_loop content (m_lastIndex m) (mathIndex + 1)
            (push_math mathIndex m (push_text content lastIndex mathIndex m elements)))"
  by pat_completeness auto
termination
proof (relation "measure (\<lambda>(content, lastIndex, mathIndex, elements). Suc (length content) - lastIndex)")
  show "wf (measure (\<lambda>(content, lastIndex, mathIndex, elements). Suc (length content) - lastIndex))"
    by simp
next
  fix content :: js_string and lastIndex mathIndex :: nat and elements :: "element list" and m
  assume "regex_exec content lastIndex = Some m"
  from regex_exec_bounds [OF this]
  show "((content, m_lastIndex m, mathIndex + 1,
          push_math mathIndex m (push_text content lastIndex mathIndex m elements)),
         (content, lastIndex, mathIndex, elements))
        \<in> measure (\<lambda>(content, lastIndex, mathIndex, elements). Suc (length content) - lastIndex)"
    by auto
qed

declare render_loop.simps [simp del]

definition renderMathInline :: "js_string \<Rightarrow> element list" where
  "renderMathInline content =
     (case render_loop content 0 0 [] of
        (elements, lastIndex) \<Rightarrow>
          if lastIndex < length content
          then elements @ [Span KeyTextEnd (slice content lastIndex (length content))]
          else elements)"


subsection \<open>What the spans say, and the specification's segments\<close>

text \<open>
  The content of a span is its text; the type tag and the key are dropped.
\<close>

fun element_content :: "element \<Rightarrow> js_string" where
  "element_content (Span k t) = t"
| "element_content (BlockMath k t) = t"
| "element_content (InlineMath k t) = t"

definition contents :: "element list \<Rightarrow> js_string" where
  "contents elements = concat (map element_content elements)"

text \<open>
  The specification's reading of a message (section 4.1): math segments are delimited by
  a double dollar (block) or a single dollar (inline), the scan goes from left to right
  and is non-greedy, and a delimiter that is never terminated is literal text. This is
  written from the specification's words, on the text itself, with no index and no
  regular expression: \<open>upto_dollar\<close> and \<open>upto_dollars\<close> cut a text at the next single
  and at the next double dollar, \<open>segments\<close> cuts a message into its segments.
  A message is balanced when no dollar is left over as literal text, and
  \<open>delimiters_removed\<close> is the message with the delimiters of its math segments taken
  out. \<open>seg_source\<close> puts the delimiters back (lemma \<open>segments_source\<close>).
\<close>

datatype segment = Literal code_unit | InlineSeg js_string | BlockSeg js_string

fun upto_dollar :: "js_string \<Rightarrow> (js_string \<times> js_string) option" where
  "upto_dollar [] = None"
| "upto_dollar (c # cs) =
     (if c = dollar then Some ([], cs)
      else map_option (\<lambda>(b, r). (c # b, r)) (upto_dollar cs))"

fun upto_dollars :: "js_string \<Rightarrow> (js_string \<times> js_string) option" where
  "upto_dollars (c # d # cs) =
     (if c = dollar \<and> d = dollar then Some ([], cs)
      else map_option (\<lambda>(b, r). (c # b, r)) (upto_dollars (d # cs)))"
| "upto_dollars cs = None"

fun block_at :: "js_string \<Rightarrow> (js_string \<times> js_string) option" where
  "block_at (c # d # cs) = (if c = dollar \<and> d = dollar then upto_dollars cs else None)"
| "block_at cs = None"

fun inline_at :: "js_string \<Rightarrow> (js_string \<times> js_string) option" where
  "inline_at (c # cs) = (if c = dollar then upto_dollar cs else None)"
| "inline_at [] = None"

lemma upto_dollar_split: "upto_dollar s = Some (b, r) \<Longrightarrow> s = b @ dollar # r"
  by (induction s arbitrary: b) (auto split: if_splits)

lemma upto_dollars_split: "upto_dollars s = Some (b, r) \<Longrightarrow> s = b @ dollar # dollar # r"
  by (induction s arbitrary: b rule: upto_dollars.induct) (auto split: if_splits)

lemma block_at_split: "block_at s = Some (b, r) \<Longrightarrow> s = dollar # dollar # b @ dollar # dollar # r"
  by (induction s rule: block_at.induct) (auto split: if_splits dest: upto_dollars_split)

lemma inline_at_split: "inline_at s = Some (b, r) \<Longrightarrow> s = dollar # b @ dollar # r"
  by (induction s rule: inline_at.induct) (auto split: if_splits dest: upto_dollar_split)

function segments :: "js_string \<Rightarrow> segment list" where
  "segments [] = []"
| "segments (c # cs) =
     (case block_at (c # cs) of
        Some (b, r) \<Rightarrow> BlockSeg b # segments r
      | None \<Rightarrow>
          (case inline_at (c # cs) of
             Some (b, r) \<Rightarrow> InlineSeg b # segments r
           | None \<Rightarrow> Literal c # segments cs))"
  by pat_completeness auto
termination
proof (relation "measure length")
  show "wf (measure length)" by simp
next
  fix c :: code_unit and cs x2 x y
  assume "block_at (c # cs) = Some x2" "(x, y) = x2"
  then have "block_at (c # cs) = Some (x, y)" by simp
  from block_at_split [OF this] show "(y, c # cs) \<in> measure length" by simp
next
  fix c :: code_unit and cs x2 x y
  assume "inline_at (c # cs) = Some x2" "(x, y) = x2"
  then have "inline_at (c # cs) = Some (x, y)" by simp
  from inline_at_split [OF this] show "(y, c # cs) \<in> measure length" by simp
next
  fix c :: code_unit and cs
  show "(cs, c # cs) \<in> measure length" by simp
qed

fun seg_text :: "segment \<Rightarrow> js_string" where
  "seg_text (Literal c) = [c]"
| "seg_text (InlineSeg b) = b"
| "seg_text (BlockSeg b) = b"

fun seg_source :: "segment \<Rightarrow> js_string" where
  "seg_source (Literal c) = [c]"
| "seg_source (InlineSeg b) = dollar # b @ [dollar]"
| "seg_source (BlockSeg b) = dollar # dollar # b @ [dollar, dollar]"

definition balanced :: "js_string \<Rightarrow> bool" where
  "balanced s = list_all (\<lambda>g. g \<noteq> Literal dollar) (segments s)"

definition delimiters_removed :: "js_string \<Rightarrow> js_string" where
  "delimiters_removed s = concat (map seg_text (segments s))"

lemma lazy_until_dollar: "lazy_until [dollar] s = map_option fst (upto_dollar s)"
  by (induction s) (auto simp: option.map_comp comp_def split_beta)

lemma lazy_until_dollars: "lazy_until [dollar, dollar] s = map_option fst (upto_dollars s)"
  by (induction s rule: upto_dollars.induct) (auto simp: option.map_comp comp_def split_beta)

lemma match_block_block_at:
  "match_block s = map_option (\<lambda>(b, r). (Some b, None, length b + 4)) (block_at s)"
  by (induction s rule: block_at.induct)
     (auto simp: match_block_def lazy_until_dollars option.map_comp comp_def split_beta)

lemma match_inline_inline_at:
  "match_inline s = map_option (\<lambda>(b, r). (None, Some b, length b + 2)) (inline_at s)"
  by (induction s rule: inline_at.induct)
     (auto simp: match_inline_def lazy_until_dollar option.map_comp comp_def split_beta)

definition math_body :: "js_string option \<Rightarrow> js_string option \<Rightarrow> js_string" where
  "math_body g1 g2 = (if truthy_string g1 then the g1 else if truthy_string g2 then the g2 else [])"

lemma contents_append [simp]: "contents (xs @ ys) = contents xs @ contents ys"
  by (simp add: contents_def)

lemma contents_push_math:
  "contents (push_math k m els) = contents els @ math_body (m_1 m) (m_2 m)"
  by (simp add: push_math_def math_body_def contents_def)

lemma contents_push_text:
  "i \<le> m_index m \<Longrightarrow>
   contents (push_text content i k m els) = contents els @ slice content i (m_index m)"
  by (simp add: push_text_def contents_def slice_def)

lemma delimiters_removed_Nil [simp]: "delimiters_removed [] = []"
  by (simp add: delimiters_removed_def)

lemma drop_prefix_eq: "s = p @ r \<Longrightarrow> length p = n \<Longrightarrow> drop n s = r"
  by auto

lemma delimiters_removed_match:
  assumes "match_here s = Some (g1, g2, n)"
  shows "delimiters_removed s = math_body g1 g2 @ delimiters_removed (drop n s)"
proof (cases s)
  case Nil
  with assms show ?thesis
    by (simp add: match_here_def match_block_def match_inline_def)
next
  case (Cons c cs)
  show ?thesis
  proof (cases "block_at s")
    case (Some p)
    obtain b r where p: "p = (b, r)" by (cases p)
    from Some p assms have g: "g1 = Some b" "g2 = None" "n = length b + 4"
      by (simp_all add: match_here_def match_block_block_at)
    from block_at_split [OF Some [unfolded p]] g
    have "drop n s = r" by (intro drop_prefix_eq [where p = "dollar # dollar # b @ [dollar, dollar]"]) simp_all
    with Some p g Cons show ?thesis
      by (simp add: delimiters_removed_def math_body_def)
  next
    case None
    with assms have "match_inline s = Some (g1, g2, n)"
      by (simp add: match_here_def match_block_block_at)
    then obtain b r where br: "inline_at s = Some (b, r)" "g1 = None" "g2 = Some b" "n = length b + 2"
      by (auto simp: match_inline_inline_at)
    from inline_at_split [OF br(1)] br(4)
    have "drop n s = r" by (intro drop_prefix_eq [where p = "dollar # b @ [dollar]"]) simp_all
    with None br Cons show ?thesis
      by (simp add: delimiters_removed_def math_body_def)
  qed
qed

lemma delimiters_removed_no_match:
  assumes "match_here (c # cs) = None"
  shows "delimiters_removed (c # cs) = c # delimiters_removed cs"
proof -
  from assms have "block_at (c # cs) = None" "inline_at (c # cs) = None"
    by (auto simp: match_here_def match_block_block_at match_inline_inline_at split: option.splits)
  then show ?thesis by (simp add: delimiters_removed_def)
qed

lemma regex_exec_None:
  "regex_exec content i = None \<Longrightarrow> i \<le> length content \<Longrightarrow>
   delimiters_removed (drop i content) = drop i content"
proof (induction content i rule: regex_exec.induct)
  case (1 content i)
  from "1.prems" have nm: "match_here (drop i content) = None"
    and rec: "regex_exec content (Suc i) = None"
    by (auto simp: regex_exec.simps [of content i] split: option.splits)
  show ?case
  proof (cases "i < length content")
    case False
    with "1.prems" show ?thesis by simp
  next
    case True
    then have d: "drop i content = content ! i # drop (Suc i) content"
      by (simp add: Cons_nth_drop_Suc)
    from True "1.prems" nm rec have "delimiters_removed (drop (Suc i) content) = drop (Suc i) content"
      by (intro "1.IH") auto
    with delimiters_removed_no_match [OF nm [unfolded d]] d show ?thesis by simp
  qed
qed

lemma regex_exec_Some:
  "regex_exec content i = Some m \<Longrightarrow>
   delimiters_removed (drop i content) =
     slice content i (m_index m) @ math_body (m_1 m) (m_2 m) @
     delimiters_removed (drop (m_lastIndex m) content)"
proof (induction content i rule: regex_exec.induct)
  case (1 content i)
  from "1.prems" have le: "\<not> length content < i"
    by (auto simp: regex_exec.simps [of content i] split: if_splits)
  show ?case
  proof (cases "match_here (drop i content)")
    case (Some g)
    obtain g1 g2 n where g: "g = (g1, g2, n)" by (cases g)
    from le Some g "1.prems"
    have m: "m = \<lparr>m_index = i, m_1 = g1, m_2 = g2, m_lastIndex = i + n\<rparr>"
      by (simp add: regex_exec.simps [of content i])
    from delimiters_removed_match [OF Some [unfolded g]] m show ?thesis
      by (simp add: slice_def add.commute)
  next
    case None
    with le "1.prems" have rec: "regex_exec content (Suc i) = Some m"
      by (simp add: regex_exec.simps [of content i])
    from regex_exec_bounds [OF rec] have b: "Suc i \<le> m_index m" "m_index m \<le> length content"
      by simp_all
    then have d: "drop i content = content ! i # drop (Suc i) content"
      by (simp add: Cons_nth_drop_Suc)
    from b have "m_index m - i = Suc (m_index m - Suc i)" by simp
    then have sl: "slice content i (m_index m) = content ! i # slice content (Suc i) (m_index m)"
      by (simp add: slice_def d)
    from "1.IH" [OF le None rec] delimiters_removed_no_match [OF None [unfolded d]] d sl
    show ?thesis by simp
  qed
qed

lemma render_loop_contents:
  "render_loop content i k els = (els', j) \<Longrightarrow> i \<le> length content \<Longrightarrow>
   j \<le> length content \<and>
   contents els' @ drop j content = contents els @ delimiters_removed (drop i content)"
proof (induction content i k els rule: render_loop.induct)
  case (1 content i k els)
  show ?case
  proof (cases "regex_exec content i")
    case None
    with "1.prems" have "els' = els" "j = i"
      by (simp_all add: render_loop.simps [of content i])
    with regex_exec_None [OF None] "1.prems" show ?thesis by simp
  next
    case (Some m)
    note b = regex_exec_bounds [OF Some]
    from Some "1.prems" have rec:
      "render_loop content (m_lastIndex m) (k + 1)
         (push_math k m (push_text content i k m els)) = (els', j)"
      by (simp add: render_loop.simps [of content i])
    from "1.IH" [OF Some rec] b
    have "j \<le> length content"
      and "contents els' @ drop j content =
           contents (push_math k m (push_text content i k m els)) @
           delimiters_removed (drop (m_lastIndex m) content)"
      by simp_all
    with b regex_exec_Some [OF Some] show ?thesis
      by (simp add: contents_push_math contents_push_text)
  qed
qed

lemma renderMathInline_contents:
  "contents (renderMathInline content) = delimiters_removed content"
proof -
  obtain els j where r: "render_loop content 0 0 [] = (els, j)"
    by (cases "render_loop content 0 0 []")
  from render_loop_contents [OF r] have "j \<le> length content"
    and "contents els @ drop j content = delimiters_removed content"
    by (simp_all add: contents_def)
  with r show ?thesis
    by (auto simp: renderMathInline_def slice_def contents_def)
qed

lemma segments_source: "concat (map seg_source (segments s)) = s"
proof (induction s rule: segments.induct)
  case 1
  show ?case by simp
next
  case (2 c cs)
  show ?case
  proof (cases "block_at (c # cs)")
    case (Some p)
    obtain b r where p: "p = (b, r)" by (cases p)
    with "2.IH" Some block_at_split [of "c # cs" b r] show ?thesis by auto
  next
    case None
    show ?thesis
    proof (cases "inline_at (c # cs)")
      case (Some p)
      obtain b r where p: "p = (b, r)" by (cases p)
      with "2.IH" None Some inline_at_split [of "c # cs" b r] show ?thesis by auto
    next
      case n: None
      with "2.IH" None show ?thesis by simp
    qed
  qed
qed

lemma no_dollar_exec: "dollar \<notin> set content \<Longrightarrow> regex_exec content i = None"
proof (induction content i rule: regex_exec.induct)
  case (1 content i)
  from "1.prems" have "dollar \<notin> set (drop i content)"
    by (auto dest: in_set_dropD)
  then have nm: "match_here (drop i content) = None"
    by (cases "drop i content") (auto simp: match_here_def match_block_def match_inline_def)
  show ?case
  proof (cases "length content < i")
    case True
    then show ?thesis by (simp add: regex_exec.simps [of content i])
  next
    case False
    from "1.IH" [OF False nm "1.prems"] False nm show ?thesis
      by (simp add: regex_exec.simps [of content i])
  qed
qed

subsection \<open>The segments against a grammar\<close>

text \<open>
  A check of the specification's segments that does not go through the scan: a message
  written as a sequence of plain characters, inline segments \<open>$b$\<close> with a non-empty
  body and block segments \<open>$$b$$\<close>, where no plain character and no body holds a
  dollar, is cut back into exactly these segments. Such a message is balanced, and the
  renderer's spans spell the plain characters and the bodies, in order.
\<close>

fun well_formed :: "segment \<Rightarrow> bool" where
  "well_formed (Literal c) = (c \<noteq> dollar)"
| "well_formed (InlineSeg b) = (b \<noteq> [] \<and> dollar \<notin> set b)"
| "well_formed (BlockSeg b) = (dollar \<notin> set b)"

definition source :: "segment list \<Rightarrow> js_string" where
  "source segs = concat (map seg_source segs)"

lemma upto_dollar_body: "dollar \<notin> set b \<Longrightarrow> upto_dollar (b @ dollar # r) = Some (b, r)"
  by (induction b) auto

lemma upto_dollars_body:
  "dollar \<notin> set b \<Longrightarrow> upto_dollars (b @ dollar # dollar # r) = Some (b, r)"
proof (induction b)
  case Nil
  show ?case by simp
next
  case (Cons c b)
  obtain d cs where d: "b @ dollar # dollar # r = d # cs"
    by (cases "b @ dollar # dollar # r") auto
  from Cons have "upto_dollars (d # cs) = Some (b, r)" "c \<noteq> dollar"
    by (auto simp: d [symmetric])
  then show ?case by (simp add: d)
qed

lemma segments_source_well_formed:
  "list_all well_formed segs \<Longrightarrow> segments (source segs) = segs"
proof (induction segs)
  case Nil
  show ?case by (simp add: source_def)
next
  case (Cons g segs)
  then have ih: "segments (source segs) = segs" and wf: "well_formed g" by simp_all
  show ?case
  proof (cases g)
    case (Literal c)
    with wf have "c \<noteq> dollar" by simp
    then have "block_at (c # source segs) = None" "inline_at (c # source segs) = None"
      by (cases "source segs"; simp)+
    with ih Literal show ?thesis by (simp add: source_def)
  next
    case (InlineSeg b)
    with wf obtain x b' where b: "b = x # b'" "x \<noteq> dollar" "dollar \<notin> set b'"
      by (cases b) auto
    have "block_at (dollar # x # b' @ dollar # source segs) = None"
      using b(2) by simp
    moreover have "inline_at (dollar # x # b' @ dollar # source segs) = Some (x # b', source segs)"
      using upto_dollar_body [of "x # b'" "source segs"] b by simp
    ultimately show ?thesis using ih InlineSeg b(1) by (simp add: source_def)
  next
    case (BlockSeg b)
    with wf have "dollar \<notin> set b" by simp
    from upto_dollars_body [OF this, of "source segs"]
    have "block_at (dollar # dollar # b @ dollar # dollar # source segs) = Some (b, source segs)"
      by simp
    with ih BlockSeg show ?thesis by (simp add: source_def)
  qed
qed

lemma well_formed_balanced:
  assumes "list_all well_formed segs"
  shows "balanced (source segs)"
    and "delimiters_removed (source segs) = concat (map seg_text segs)"
proof -
  from assms have "list_all (\<lambda>g. g \<noteq> Literal dollar) segs"
    by (induction segs) auto
  then show "balanced (source segs)"
    by (simp add: balanced_def segments_source_well_formed [OF assms])
  show "delimiters_removed (source segs) = concat (map seg_text segs)"
    by (simp add: delimiters_removed_def segments_source_well_formed [OF assms])
qed

lemma renderMathInline_well_formed:
  "list_all well_formed segs \<Longrightarrow>
   concat (map element_content (renderMathInline (source segs))) = concat (map seg_text segs)"
  using renderMathInline_contents [of "source segs"] well_formed_balanced(2) [of segs]
  by (simp add: contents_def)

subsection \<open>Claims about the renderer\<close>

text \<open>
  C2. For every message in which every double-dollar and single-dollar delimiter is
  terminated (\<open>balanced\<close>), the contents of the spans of \<open>renderMathInline\<close>, put
  together in order, are the message with the delimiters of its math segments removed.
  The spans come from the index-based loop over the regular expression, the right-hand
  side from the specification's segments. An empty math segment gives no span at all
  (lines 42-46 test the truthiness of the group), and contributes nothing on either side.
  For a message built from well-formed segments the right-hand side is the plain text and
  the bodies (lemma \<open>well_formed_balanced\<close>).
\<close>

theorem renderMathInline_balanced_concat:
  "balanced content \<Longrightarrow>
   concat (map element_content (renderMathInline content)) = delimiters_removed content"
  using renderMathInline_contents [of content] by (simp add: contents_def)

theorem renderMathInline_balanced_concat_witness:
  "balanced (js ''a$$x$$b$y$ '') \<and>
   renderMathInline (js ''a$$x$$b$y$ '') =
     [Span (KeyText 0) (js ''a''), BlockMath (KeyBlock 0) (js ''x''),
      Span (KeyText 1) (js ''b''), InlineMath (KeyInline 1) (js ''y''),
      Span KeyTextEnd (js '' '')] \<and>
   concat (map element_content (renderMathInline (js ''a$$x$$b$y$ ''))) = js ''axby ''"
proof -
  have b: "balanced (js ''a$$x$$b$y$ '')"
    by (simp add: balanced_def js_def dollar_def)
  have d: "delimiters_removed (js ''a$$x$$b$y$ '') = js ''axby ''"
    by (simp add: delimiters_removed_def js_def dollar_def)
  have r: "renderMathInline (js ''a$$x$$b$y$ '') =
     [Span (KeyText 0) (js ''a''), BlockMath (KeyBlock 0) (js ''x''),
      Span (KeyText 1) (js ''b''), InlineMath (KeyInline 1) (js ''y''),
      Span KeyTextEnd (js '' '')]"
    by code_simp
  from renderMathInline_balanced_concat [OF b] b d r show ?thesis by simp
qed

text \<open>
  C6, as the claim states it, fails at the empty string: line 50 pushes the closing text
  span only when \<open>lastIndex < content.length\<close>, so the empty message gives no span.
\<close>

theorem renderMathInline_empty_counterexample:
  "dollar \<notin> set (js []) \<and> renderMathInline (js []) = [] \<and>
   length (renderMathInline (js [])) \<noteq> 1"
  by (simp add: js_def renderMathInline_def render_loop.simps [of "[]" 0] no_dollar_exec)

text \<open>
  C6, amended. For every non-empty message with no dollar character the renderer gives
  exactly one text span, whose content is the message; for the empty message it gives no
  span.
\<close>

theorem renderMathInline_no_dollar:
  "dollar \<notin> set content \<Longrightarrow>
   renderMathInline content = (if content = [] then [] else [Span KeyTextEnd content])"
  by (simp add: renderMathInline_def render_loop.simps [of content 0] no_dollar_exec slice_def)

theorem renderMathInline_no_dollar_witness:
  "dollar \<notin> set (js ''x + y'') \<and>
   renderMathInline (js ''x + y'') = [Span KeyTextEnd (js ''x + y'')]"
proof -
  have n: "dollar \<notin> set (js ''x + y'')"
    by (simp add: js_def dollar_def)
  from renderMathInline_no_dollar [OF n] n show ?thesis by (simp add: js_def)
qed

section \<open>JavaScript values the page handles\<close>

subsection \<open>Strings: trim, decimal numerals\<close>

text \<open>
  \<open>String.prototype.trim\<close> removes the WhiteSpace and LineTerminator code units of
  ECMAScript from both ends. \<open>!queryText.trim()\<close> holds when the trimmed string is
  empty.
\<close>

definition is_white_space :: "code_unit \<Rightarrow> bool" where
  "is_white_space c \<longleftrightarrow>
     c \<in> {0x0009, 0x000A, 0x000B, 0x000C, 0x000D, 0x0020, 0x00A0, 0x1680,
          0x2000, 0x2001, 0x2002, 0x2003, 0x2004, 0x2005, 0x2006, 0x2007, 0x2008, 0x2009,
          0x200A, 0x2028, 0x2029, 0x202F, 0x205F, 0x3000, 0xFEFF}"

definition trim :: "js_string \<Rightarrow> js_string" where
  "trim s = rev (dropWhile is_white_space (rev (dropWhile is_white_space s)))"

text \<open>
  A form field's text and file name are \<open>USVString\<close>s: \<open>FormData.append\<close> replaces
  every surrogate code unit that is not part of a pair by U+FFFD.
\<close>

definition is_high_surrogate :: "code_unit \<Rightarrow> bool" where
  "is_high_surrogate c \<longleftrightarrow> 0xD800 \<le> c \<and> c \<le> 0xDBFF"

definition is_low_surrogate :: "code_unit \<Rightarrow> bool" where
  "is_low_surrogate c \<longleftrightarrow> 0xDC00 \<le> c \<and> c \<le> 0xDFFF"

fun usv_string :: "js_string \<Rightarrow> js_string" where
  "usv_string [] = []"
| "usv_string [c] = [if is_high_surrogate c \<or> is_low_surrogate c then 0xFFFD else c]"
| "usv_string (c # d # cs) =
     (if is_high_surrogate c \<and> is_low_surrogate d then c # d # usv_string cs
      else if is_high_surrogate c \<or> is_low_surrogate c then 0xFFFD # usv_string (d # cs)
      else c # usv_string (d # cs))"

text \<open>The decimal text of a status code, for the template string \<open>`Server error ${res.status}`\<close>.\<close>

function decimal :: "nat \<Rightarrow> js_string" where
  "decimal n = (if n < 10 then [0x30 + of_nat n] else decimal (n div 10) @ [0x30 + of_nat (n mod 10)])"
  by pat_completeness auto
termination
  by (relation "measure id") auto

declare decimal.simps [simp del]

subsection \<open>Parsed JSON\<close>

text \<open>
  The responses are what \<open>JSON.parse\<close> and \<open>res.json()\<close> return. The page does no
  arithmetic on them, so the type of JavaScript numbers is a parameter \<open>'n\<close>; where a
  number is tested for truthiness or turned into text, the test and the conversion are
  parameters too. An object is its list of properties; \<open>undefined\<close> is \<open>None\<close>.
\<close>

datatype 'n json =
  JNull
| JBool bool
| JNum 'n
| JStr js_string
| JArr "'n json list"
| JObj "(js_string \<times> 'n json) list"

type_synonym 'n js_value = "'n json option"

fun get_prop :: "'n json \<Rightarrow> js_string \<Rightarrow> 'n js_value" where
  \<comment> \<open>\<open>v.k\<close> for the property names the page reads: only an object has one of them\<close>
  "get_prop (JObj kvs) k = map_of kvs k"
| "get_prop v k = None"

definition nullish :: "'n js_value \<Rightarrow> bool" where
  "nullish v \<longleftrightarrow> v = None \<or> v = Some JNull"

definition opt_chain :: "'n js_value \<Rightarrow> js_string \<Rightarrow> 'n js_value" where
  \<comment> \<open>\<open>v?.k\<close>\<close>
  "opt_chain v k = (case v of None \<Rightarrow> None | Some JNull \<Rightarrow> None | Some j \<Rightarrow> get_prop j k)"

definition coalesce :: "'n js_value \<Rightarrow> 'n js_value \<Rightarrow> 'n js_value" where
  \<comment> \<open>\<open>a ?? b\<close>\<close>
  "coalesce a b = (if nullish a then b else a)"

text \<open>
  What the JavaScript runtime decides about values: which numbers are truthy (all but
  0, -0 and NaN), the text of a number, and the message of the \<open>TypeError\<close> that
  \<open>String(v)\<close> raises.
\<close>

record 'n runtime =
  number_truthy :: "'n \<Rightarrow> bool"
  number_text :: "'n \<Rightarrow> js_string"
  type_error_message :: js_string

fun truthy :: "'n runtime \<Rightarrow> 'n js_value \<Rightarrow> bool" where
  "truthy rt None = False"
| "truthy rt (Some JNull) = False"
| "truthy rt (Some (JBool b)) = b"
| "truthy rt (Some (JNum n)) = number_truthy rt n"
| "truthy rt (Some (JStr s)) = (s \<noteq> [])"
| "truthy rt (Some (JArr xs)) = True"
| "truthy rt (Some (JObj kvs)) = True"

fun join_comma :: "js_string list \<Rightarrow> js_string" where
  "join_comma [] = []"
| "join_comma [s] = s"
| "join_comma (s # t # ts) = s @ 0x2C # join_comma (t # ts)"

fun sequence :: "'a option list \<Rightarrow> 'a list option" where
  "sequence [] = Some []"
| "sequence (x # xs) =
     (case x of None \<Rightarrow> None
      | Some y \<Rightarrow> (case sequence xs of None \<Rightarrow> None | Some ys \<Rightarrow> Some (y # ys)))"

text \<open>
  \<open>String(v)\<close> on a parsed JSON value; \<open>None\<close> when it throws a \<open>TypeError\<close>. An
  array joins the texts of its elements with commas, \<open>null\<close> among them as the empty
  text. A plain object is \<open>[object Object]\<close>, unless it has a property \<open>toString\<close> of
  its own: a JSON value is never callable, so the conversion then falls to \<open>valueOf\<close>,
  which gives no primitive either, and throws.
\<close>

fun js_String :: "'n runtime \<Rightarrow> 'n json \<Rightarrow> js_string option" where
  "js_String rt JNull = Some (js ''null'')"
| "js_String rt (JBool b) = Some (if b then js ''true'' else js ''false'')"
| "js_String rt (JNum n) = Some (number_text rt n)"
| "js_String rt (JStr s) = Some s"
| "js_String rt (JArr xs) =
     map_option join_comma
       (sequence (map (\<lambda>x. if x = JNull then Some [] else js_String rt x) xs))"
| "js_String rt (JObj kvs) =
     (if js ''toString'' \<in> fst ` set kvs then None else Some (js ''[object Object]''))"

text \<open>
  \<open>makeId\<close> (lines 23-29): the prefix, then either a random UUID or, when
  \<open>crypto.randomUUID\<close> throws, the time in base 36 and six random digits. The random
  material comes from the environment.
\<close>

datatype entropy = UUID js_string | Fallback js_string js_string

fun makeId :: "js_string \<Rightarrow> entropy \<Rightarrow> js_string" where
  "makeId pre (UUID u) = pre @ u"
| "makeId pre (Fallback time rand) = pre @ time @ rand"

section \<open>The component state\<close>

text \<open>
  The \<open>useState\<close> cells and the two refs that carry data (lines 96-136). A \<open>File\<close> is
  a \<open>Blob\<close> with a name; \<open>mediaRecorderRef\<close> holds the recorder, of which only its
  \<open>state\<close> is read. The stored document keeps what the server sent: the page
  never checks that the identifier or the name is a string.
\<close>

datatype role = User | Assistant

record message =
  msg_id :: js_string
  msg_role :: role
  msg_content :: js_string
  msg_createdAt :: "js_string option"

record blob =
  blob_bytes :: "8 word list"
  blob_type :: js_string

record js_file =
  file_blob :: blob
  file_name :: js_string

record 'n uploaded_doc =
  doc_id :: "'n json"
  doc_name :: "'n json"

datatype recorder_state = Inactive | Recording

record 'n state =
  messages :: "message list"
  inputValue :: js_string
  isLoading :: bool
  uploadedFile :: "js_file option"
  uploadedDoc :: "'n uploaded_doc option"
  isUploading :: bool
  uploadProgress :: "'n option"
  isRecording :: bool
  mediaRecorderRef :: "recorder_state option"
  audioChunksRef :: "blob list"
  showUploadModal :: bool
  isDragging :: bool
  showSuccess :: bool
  error :: "js_string option"
  referencePopup :: bool
  referenceText :: js_string
  popupPosition :: "('n \<times> 'n) option"
  selectedText :: "js_string option"
  conversationId :: "js_string option"

subsection \<open>Local storage and the conversation identifier (lines 130-146)\<close>

text \<open>
  \<open>localStorage\<close> is a map from keys to strings. Both accesses stand in a
  \<open>try\<close>/\<open>catch\<close>: whether a call throws is decided by the browser, and is an argument
  here.
\<close>

type_synonym local_storage = "js_string \<rightharpoonup> js_string"

datatype 'a attempt = Threw | Returned 'a

definition getItem :: "bool \<Rightarrow> local_storage \<Rightarrow> js_string \<Rightarrow> js_string option attempt" where
  "getItem throws sto k = (if throws then Threw else Returned (sto k))"

definition setItem :: "bool \<Rightarrow> local_storage \<Rightarrow> js_string \<Rightarrow> js_string \<Rightarrow> local_storage attempt" where
  "setItem throws sto k v = (if throws then Threw else Returned (sto(k \<mapsto> v)))"

definition conversation_key :: js_string where
  "conversation_key = js ''agoralearn:conversationId''"

definition read_conversationId :: "bool \<Rightarrow> local_storage \<Rightarrow> js_string option" where
  \<comment> \<open>the lazy initialiser of lines 130-136\<close>
  "read_conversationId throws sto =
     (case getItem throws sto conversation_key of Threw \<Rightarrow> None | Returned v \<Rightarrow> v)"

definition welcome_text :: js_string where
  "welcome_text =
     js ''Hello! I'' @ [0x27] @ js ''m here to help you with your documents. Ask me any questions.''"

definition initial_state :: "js_string \<Rightarrow> js_string option \<Rightarrow> 'n state" where
  \<comment> \<open>the first render: \<open>now\<close> is \<open>new Date().toISOString()\<close>, \<open>cid\<close> the identifier read\<close>
  "initial_state now cid =
     \<lparr>messages =
        [\<lparr>msg_id = js ''welcome'', msg_role = Assistant, msg_content = welcome_text,
          msg_createdAt = Some now\<rparr>],
      inputValue = [],
      isLoading = False,
      uploadedFile = None,
      uploadedDoc = None,
      isUploading = False,
      uploadProgress = None,
      isRecording = False,
      mediaRecorderRef = None,
      audioChunksRef = [],
      showUploadModal = False,
      isDragging = False,
      showSuccess = False,
      error = None,
      referencePopup = False,
      referenceText = [],
      popupPosition = None,
      selectedText = None,
      conversationId = cid\<rparr>"

record 'n page =
  ui :: "'n state"
  localStorage :: local_storage

definition conversation_effect :: "entropy \<Rightarrow> bool \<Rightarrow> 'n page \<Rightarrow> 'n page" where
  \<comment> \<open>the effect of lines 138-146, run after a render with the identifier of that render\<close>
  "conversation_effect e throws p =
     (if \<not> truthy_string (conversationId (ui p))
      then let id = makeId (js ''conv-'') e in
        \<lparr>ui = (ui p)\<lparr>conversationId := Some id\<rparr>,
         localStorage =
           (case setItem throws (localStorage p) conversation_key id of
              Threw \<Rightarrow> localStorage p
            | Returned sto \<Rightarrow> sto)\<rparr>
      else p)"

definition first_render :: "js_string \<Rightarrow> bool \<Rightarrow> local_storage \<Rightarrow> 'n page" where
  \<comment> \<open>the page after its first render on the storage \<open>sto\<close>\<close>
  "first_render now get_throws sto =
     \<lparr>ui = initial_state now (read_conversationId get_throws sto), localStorage = sto\<rparr>"

definition load :: "js_string \<Rightarrow> bool \<Rightarrow> entropy \<Rightarrow> bool \<Rightarrow> local_storage \<Rightarrow> 'n page" where
  \<comment> \<open>one application load: the first render, then the effect after it\<close>
  "load now get_throws e set_throws sto =
     conversation_effect e set_throws (first_render now get_throws sto)"

section \<open>Requests, responses and the handlers\<close>

text \<open>
  A handler is a closure of one render: it reads the state cells of that render (\<open>r\<close>)
  and its setters act on the state as it is when they run (\<open>st\<close>). Called from the
  current render, \<open>r\<close> and \<open>st\<close> are the same state; a callback kept across renders
  (the recorder's \<open>onstop\<close>) still reads the render that created it. Refs are read from
  \<open>st\<close>. An \<open>async\<close> handler is cut at its \<open>await\<close>: the part up to it returns the
  new state and the request it sends, if any (\<open>_call\<close>); the part after it takes what
  the awaited promise settled to (\<open>_resume\<close>).
\<close>

datatype form_entry =
  FormBlob js_string blob js_string
| FormText js_string js_string

datatype 'n request_body = JsonBody "'n json" | FormBody "form_entry list"

record 'n request =
  req_url :: js_string
  req_method :: js_string
  req_headers :: "(js_string \<times> js_string) list"
  req_body :: "'n request_body"

text \<open>
  What \<open>fetch\<close> settles to: a rejection with the error's message, or a response with
  its status and what \<open>res.json()\<close> settles to (\<open>Inl\<close> the message of its rejection).
\<close>

datatype 'n fetch_outcome =
  FetchFailed js_string
| FetchResponse nat "js_string + 'n json"

definition res_ok :: "nat \<Rightarrow> bool" where
  "res_ok status \<longleftrightarrow> 200 \<le> status \<and> status \<le> 299"

definition pushMessage :: "message \<Rightarrow> 'n state \<Rightarrow> 'n state" where
  \<comment> \<open>lines 155-157: a functional update, so it appends to the log as it is\<close>
  "pushMessage m st = st\<lparr>messages := messages st @ [m]\<rparr>"

subsection \<open>File selection and upload (lines 59-89, 160-193)\<close>

definition handleFileSelect :: "js_file \<Rightarrow> 'n state \<Rightarrow> 'n state" where
  "handleFileSelect f st = st\<lparr>uploadedFile := Some f\<rparr>"

definition first_file :: "js_file list \<Rightarrow> 'n state \<Rightarrow> 'n state" where
  \<comment> \<open>\<open>files?.[0]\<close>, then \<open>handleFileSelect\<close>: lines 163-166 and the \<open>onDrop\<close> of line 413\<close>
  "first_file files st = (case files of [] \<Rightarrow> st | f # _ \<Rightarrow> handleFileSelect f st)"

text \<open>
  \<open>uploadWithProgress\<close>: the promise resolves with the parsed response text, or the
  text itself when \<open>JSON.parse\<close> throws, on a status from 200 to 299; it rejects
  otherwise. \<open>XhrLoad status text parsed\<close> gives the response text and what
  \<open>JSON.parse\<close> makes of it (\<open>None\<close>: it throws).
\<close>

datatype 'n settled = Resolved "'n json" | Rejected js_string

datatype 'n xhr_result = XhrLoad nat js_string "'n json option" | XhrError

definition upload_request :: "js_file \<Rightarrow> 'n request" where
  "upload_request f =
     \<lparr>req_url = js ''http://localhost:3000/api/upload'', req_method = js ''POST'',
      req_headers = [],
      req_body = FormBody [FormBlob (js ''file'') (file_blob f) (usv_string (file_name f))]\<rparr>"

fun uploadWithProgress :: "'n xhr_result \<Rightarrow> 'n settled" where
  "uploadWithProgress (XhrLoad status text parsed) =
     (if 200 \<le> status \<and> status < 300
      then Resolved (case parsed of Some j \<Rightarrow> j | None \<Rightarrow> JStr text)
      else Rejected (js ''Upload failed: '' @ decimal status))"
| "uploadWithProgress XhrError = Rejected (js ''Upload network error'')"

definition handleUpload_call :: "('n::zero) state \<Rightarrow> 'n state \<Rightarrow> 'n state \<times> 'n request option" where
  \<comment> \<open>lines 170-176, up to the \<open>await\<close>\<close>
  "handleUpload_call r st =
     (case uploadedFile r of
        None \<Rightarrow> (st, None)
      | Some f \<Rightarrow>
          (st\<lparr>isUploading := True, error := None, uploadProgress := Some 0\<rparr>,
           Some (upload_request f)))"

definition upload_id :: "'n json \<Rightarrow> 'n js_value" where
  \<comment> \<open>line 177: \<open>data?.file?.id ?? data?.docId ?? data?.id\<close>\<close>
  "upload_id data =
     coalesce
       (coalesce (opt_chain (opt_chain (Some data) (js ''file'')) (js ''id''))
                 (opt_chain (Some data) (js ''docId'')))
       (opt_chain (Some data) (js ''id''))"

definition upload_name :: "'n json \<Rightarrow> js_file \<Rightarrow> 'n json" where
  \<comment> \<open>line 178: \<open>data?.file?.name ?? uploadedFile.name\<close>\<close>
  "upload_name data f =
     (case coalesce (opt_chain (opt_chain (Some data) (js ''file'')) (js ''name''))
                    (Some (JStr (file_name f))) of
        Some n \<Rightarrow> n
      | None \<Rightarrow> JStr (file_name f))"

definition handleUpload_try :: "'n runtime \<Rightarrow> js_file \<Rightarrow> 'n settled \<Rightarrow> 'n state \<Rightarrow> 'n state" where
  \<comment> \<open>the \<open>try\<close> and \<open>catch\<close> of lines 175-188, from the \<open>await\<close> on\<close>
  "handleUpload_try rt f outcome st =
     (case outcome of
        Rejected msg \<Rightarrow> st\<lparr>error := Some msg\<rparr>
      | Resolved data \<Rightarrow>
          (case upload_id data of
             None \<Rightarrow> st\<lparr>error := Some (js ''Upload response missing id'')\<rparr>
           | Some i \<Rightarrow>
               if \<not> truthy rt (Some i)
               then st\<lparr>error := Some (js ''Upload response missing id'')\<rparr>
               else st\<lparr>uploadedDoc := Some \<lparr>doc_id = i, doc_name = upload_name data f\<rparr>,
                       uploadedFile := None,
                       showSuccess := True\<rparr>))"

definition handleUpload_resume :: "'n runtime \<Rightarrow> js_file \<Rightarrow> 'n settled \<Rightarrow> 'n state \<Rightarrow> 'n state" where
  \<comment> \<open>with the \<open>finally\<close> of lines 189-192\<close>
  "handleUpload_resume rt f outcome st =
     (handleUpload_try rt f outcome st)\<lparr>isUploading := False, uploadProgress := None\<rparr>"

subsection \<open>sendQuery (lines 263-295)\<close>

definition converse_payload :: "'n state \<Rightarrow> js_string \<Rightarrow> (js_string \<times> 'n json) list" where
  \<comment> \<open>lines 271-273\<close>
  "converse_payload r queryText =
     [(js ''query'', JStr queryText)] @
     (case uploadedDoc r of None \<Rightarrow> [] | Some d \<Rightarrow> [(js ''docId'', doc_id d)]) @
     (case conversationId r of
        None \<Rightarrow> []
      | Some c \<Rightarrow> if c \<noteq> [] then [(js ''conversationId'', JStr c)] else [])"

definition converse_request :: "'n state \<Rightarrow> js_string \<Rightarrow> 'n request" where
  \<comment> \<open>lines 276-280; the body is the payload that \<open>JSON.stringify\<close> writes out\<close>
  "converse_request r queryText =
     \<lparr>req_url = js ''http://localhost:3000/api/converse'', req_method = js ''POST'',
      req_headers = [(js ''Content-Type'', js ''application/json'')],
      req_body = JsonBody (JObj (converse_payload r queryText))\<rparr>"

definition sendQuery_call ::
  "'n state \<Rightarrow> entropy \<Rightarrow> js_string \<Rightarrow> js_string \<Rightarrow> 'n state \<Rightarrow> 'n state \<times> 'n request option" where
  \<comment> \<open>lines 264-280, up to the \<open>await\<close>\<close>
  "sendQuery_call r e now queryText st =
     (if trim queryText = [] then (st, None)
      else
        (pushMessage
           \<lparr>msg_id = makeId (js ''u-'') e, msg_role = User, msg_content = queryText,
            msg_createdAt = Some now\<rparr>
           (st\<lparr>isLoading := True, error := None\<rparr>),
         Some (converse_request r queryText)))"

definition fallback_text :: js_string where
  \<comment> \<open>line 290; the dash is U+2014\<close>
  "fallback_text = js ''Sorry '' @ [0x2014] @ js '' something went wrong.''"

definition converse_answer :: "'n json \<Rightarrow> 'n json" where
  \<comment> \<open>line 285: \<open>body?.answer ?? body?.assistantText ?? (typeof body === "string" ? body : "")\<close>\<close>
  "converse_answer body =
     (case coalesce
             (coalesce (opt_chain (Some body) (js ''answer''))
                       (opt_chain (Some body) (js ''assistantText'')))
             (Some (case body of JStr s \<Rightarrow> JStr s | _ \<Rightarrow> JStr [])) of
        Some a \<Rightarrow> a
      | None \<Rightarrow> JStr [])"

definition sendQuery_catch :: "entropy \<Rightarrow> js_string \<Rightarrow> 'n state \<Rightarrow> 'n state" where
  \<comment> \<open>lines 288-291; the argument is the message of the error caught\<close>
  "sendQuery_catch e msg st =
     (pushMessage
        \<lparr>msg_id = makeId (js ''a-'') e, msg_role = Assistant, msg_content = fallback_text,
         msg_createdAt = None\<rparr> st)
     \<lparr>error := Some msg\<rparr>"

definition sendQuery_try :: "'n runtime \<Rightarrow> entropy \<Rightarrow> 'n fetch_outcome \<Rightarrow> 'n state \<Rightarrow> 'n state" where
  \<comment> \<open>lines 275-291, from the \<open>await\<close> on\<close>
  "sendQuery_try rt e outcome st =
     (case outcome of
        FetchFailed msg \<Rightarrow> sendQuery_catch e msg st
      | FetchResponse status parsed \<Rightarrow>
          if \<not> res_ok status then sendQuery_catch e (js ''Server error '' @ decimal status) st
          else
            (case parsed of
               Inl msg \<Rightarrow> sendQuery_catch e msg st
             | Inr body \<Rightarrow>
                 (case js_String rt (converse_answer body) of
                    None \<Rightarrow> sendQuery_catch e (type_error_message rt) st
                  | Some text \<Rightarrow>
                      pushMessage
                        \<lparr>msg_id = makeId (js ''a-'') e, msg_role = Assistant,
                         msg_content = text, msg_createdAt = None\<rparr> st)))"

definition sendQuery_resume :: "'n runtime \<Rightarrow> entropy \<Rightarrow> 'n fetch_outcome \<Rightarrow> 'n state \<Rightarrow> 'n state" where
  \<comment> \<open>with the \<open>finally\<close> of lines 292-294\<close>
  "sendQuery_resume rt e outcome st = (sendQuery_try rt e outcome st)\<lparr>isLoading := False\<rparr>"

definition sendQuery ::
  "'n runtime \<Rightarrow> ('n request \<Rightarrow> 'n fetch_outcome) \<Rightarrow> 'n state \<Rightarrow> entropy \<Rightarrow> js_string \<Rightarrow> entropy \<Rightarrow>
   js_string \<Rightarrow> 'n state \<Rightarrow> 'n state" where
  \<comment> \<open>one whole call against a server, with nothing else running in between\<close>
  "sendQuery rt server r e now e' queryText st =
     (case sendQuery_call r e now queryText st of
        (st', None) \<Rightarrow> st'
      | (st', Some req) \<Rightarrow> sendQuery_resume rt e' (server req) st')"

subsection \<open>Voice input (lines 196-240)\<close>

text \<open>
  The click either starts a recording (and asks for the microphone) or stops the
  recorder. \<open>getUserMedia\<close> settling, the recorder's \<open>dataavailable\<close> and \<open>stop\<close>
  events, and the answer of the transcription endpoint come later, each as a part of
  its own.
\<close>

datatype voice_action = AskMicrophone | StopRecorder | NoAction

definition handleVoiceInput_call :: "'n state \<Rightarrow> 'n state \<Rightarrow> 'n state \<times> voice_action" where
  \<comment> \<open>lines 197-201 up to the \<open>await\<close>, and the \<open>else\<close> of lines 237-239\<close>
  "handleVoiceInput_call r st =
     (if \<not> isRecording r
      then (st\<lparr>isRecording := True, audioChunksRef := []\<rparr>, AskMicrophone)
      else (st, case mediaRecorderRef st of None \<Rightarrow> NoAction | Some _ \<Rightarrow> StopRecorder))"

definition handleVoiceInput_resume :: "bool \<Rightarrow> 'n state \<Rightarrow> 'n state" where
  \<comment> \<open>lines 202-236: the microphone was granted and the recorder started, or something
      in the \<open>try\<close> threw\<close>
  "handleVoiceInput_resume granted st =
     (if granted then st\<lparr>mediaRecorderRef := Some Recording\<rparr>
      else st\<lparr>isRecording := False,
              error := Some (js ''Microphone access denied or unavailable.'')\<rparr>)"

definition ondataavailable :: "blob \<Rightarrow> 'n state \<Rightarrow> 'n state" where
  \<comment> \<open>lines 204-206\<close>
  "ondataavailable b st =
     (if length (blob_bytes b) > 0 then st\<lparr>audioChunksRef := audioChunksRef st @ [b]\<rparr> else st)"

definition voice_request :: "blob list \<Rightarrow> js_string option \<Rightarrow> 'n request" where
  \<comment> \<open>lines 209-214\<close>
  "voice_request chunks doc =
     \<lparr>req_url = js ''http://localhost:3000/api/voice-query'', req_method = js ''POST'',
      req_headers = [],
      req_body = FormBody
        (FormBlob (js ''audio'')
           \<lparr>blob_bytes = concat (map blob_bytes chunks), blob_type = js ''audio/webm''\<rparr>
           (js ''audio.webm'') #
         (case doc of None \<Rightarrow> [] | Some d \<Rightarrow> [FormText (js ''docId'') d]))\<rparr>"

definition onstop_call :: "'n runtime \<Rightarrow> 'n state \<Rightarrow> 'n state \<Rightarrow> 'n state \<times> 'n request option" where
  \<comment> \<open>lines 208-214, up to the \<open>await\<close>. \<open>fd.append("docId", uploadedDoc.id)\<close> turns
      the identifier into text, a \<open>USVString\<close>; it stands before the \<open>try\<close>, so when
      the conversion throws the handler ends there.\<close>
  "onstop_call rt r st =
     (let st' = st\<lparr>isRecording := False\<rparr> in
      case uploadedDoc r of
        None \<Rightarrow> (st', Some (voice_request (audioChunksRef st) None))
      | Some d \<Rightarrow>
          (case js_String rt (doc_id d) of
             None \<Rightarrow> (st', None)
           | Some t \<Rightarrow> (st', Some (voice_request (audioChunksRef st) (Some (usv_string t))))))"

definition voice_question :: "'n json \<Rightarrow> 'n js_value" where
  \<comment> \<open>line 217: \<open>j?.question ?? j?.transcript\<close>\<close>
  "voice_question j = coalesce (opt_chain (Some j) (js ''question'')) (opt_chain (Some j) (js ''transcript''))"

definition not_heard_text :: js_string where
  "not_heard_text = js ''I couldn'' @ [0x27] @ js ''t hear a question.''"

definition voice_notice :: "entropy \<Rightarrow> js_string \<Rightarrow> 'n state \<Rightarrow> 'n state" where
  "voice_notice e text st =
     pushMessage
       \<lparr>msg_id = makeId (js ''a-'') e, msg_role = Assistant, msg_content = text,
        msg_createdAt = None\<rparr> st"

definition onstop_resume ::
  "'n state \<Rightarrow> entropy \<Rightarrow> js_string \<Rightarrow> 'n fetch_outcome \<Rightarrow> 'n state \<Rightarrow> 'n state \<times> 'n request option" where
  \<comment> \<open>lines 214-226, from the \<open>await\<close> of \<open>fetch\<close> to the \<open>await\<close> inside \<open>sendQuery\<close>\<close>
  "onstop_resume r e now outcome st =
     (case outcome of
        FetchFailed msg \<Rightarrow> (voice_notice e (js ''Voice processing failed.'') st, None)
      | FetchResponse status parsed \<Rightarrow>
          if \<not> res_ok status then (voice_notice e (js ''Voice processing failed.'') st, None)
          else
            (case parsed of
               Inl msg \<Rightarrow> (voice_notice e (js ''Voice processing failed.'') st, None)
             | Inr j \<Rightarrow>
                 (case voice_question j of
                    Some (JStr question) \<Rightarrow>
                      if trim question \<noteq> [] then sendQuery_call r e now question st
                      else (voice_notice e not_heard_text st, None)
                  | _ \<Rightarrow> (voice_notice e not_heard_text st, None))))"

subsection \<open>Selection, ask, send, export (lines 243-318)\<close>

definition handleMouseUp :: "(js_string \<times> 'n \<times> 'n) option \<Rightarrow> 'n state \<Rightarrow> 'n state" where
  \<comment> \<open>the argument is \<open>window.getSelection()\<close>: its text and the popup position worked
      out from its rectangle (\<open>top\<close>, \<open>left\<close>)\<close>
  "handleMouseUp sel st =
     (case sel of
        None \<Rightarrow> st\<lparr>popupPosition := None, selectedText := None\<rparr>
      | Some (text, y, x) \<Rightarrow>
          if trim text = [] then st\<lparr>popupPosition := None, selectedText := None\<rparr>
          else st\<lparr>selectedText := Some text, popupPosition := Some (y, x)\<rparr>)"

definition handleAskAgoraLearn ::
  "'n state \<Rightarrow> entropy \<Rightarrow> js_string \<Rightarrow> 'n state \<Rightarrow> 'n state \<times> 'n request option" where
  "handleAskAgoraLearn r e now st =
     (case selectedText r of
        None \<Rightarrow> (st, None)
      | Some text \<Rightarrow>
          if text = [] then (st, None)
          else sendQuery_call r e now text (st\<lparr>referencePopup := False\<rparr>))"

definition handleSendMessage_call ::
  "'n state \<Rightarrow> entropy \<Rightarrow> js_string \<Rightarrow> 'n state \<Rightarrow> 'n state \<times> 'n request option" where
  \<comment> \<open>lines 298-299, up to the \<open>await\<close> inside \<open>sendQuery\<close>\<close>
  "handleSendMessage_call r e now st =
     (if trim (inputValue r) = [] then (st, None)
      else sendQuery_call r e now (inputValue r) st)"

definition handleSendMessage_resume :: "'n state \<Rightarrow> 'n state" where
  \<comment> \<open>line 300, once \<open>sendQuery\<close> has returned\<close>
  "handleSendMessage_resume st = st\<lparr>inputValue := []\<rparr>"

definition exportConversation :: "bool \<Rightarrow> 'n state \<Rightarrow> 'n state" where
  \<comment> \<open>lines 304-318: the download changes no state; the argument says whether the
      \<open>try\<close> threw\<close>
  "exportConversation threw st = (if threw then st\<lparr>error := Some (js ''Export failed'')\<rparr> else st)"

definition use_reference :: "'n state \<Rightarrow> 'n state \<Rightarrow> 'n state" where
  \<comment> \<open>line 375\<close>
  "use_reference r st =
     st\<lparr>inputValue := js ''Reference: '' @ [0x22] @ referenceText r @ [0x22, 0x0A],
        referencePopup := False\<rparr>"

subsection \<open>The view of the message log (lines 337-350)\<close>

record rendered_message =
  view_key :: js_string
  view_role :: role
  view_content :: "element list"
  view_createdAt :: "js_string option"

datatype log_view = NoMessagesYet | MessageList "rendered_message list"

definition view_log :: "'n state \<Rightarrow> log_view" where
  "view_log st =
     (if length (messages st) = 0 then NoMessagesYet
      else MessageList
        (map (\<lambda>m. \<lparr>view_key = msg_id m, view_role = msg_role m,
                    view_content = renderMathInline (msg_content m),
                    view_createdAt = msg_createdAt m\<rparr>)
           (messages st)))"

section \<open>The page as a machine\<close>

text \<open>
  Every way the state changes: the effect, the handlers of the view (lines 321-427) and
  the later parts of the asynchronous handlers. An event runs inside a render \<open>r\<close>, as
  above. The requests a handler sends are not part of the state and are dropped here.
\<close>

datatype 'n event =
  ConversationEffect entropy bool
| InputChange js_string
| KeyDownEnter entropy js_string
| SendClick entropy js_string
| SendMessageReturned
| QuerySettled entropy "'n fetch_outcome"
| OpenUploadModal
| CloseUploadModal
| DragOver
| DragLeave
| Drop "js_file list"
| FileInputChange "js_file list"
| RemoveSelectedFile
| UploadClick
| UploadProgress bool 'n
| UploadSettled "'n xhr_result"
| SuccessTimeout
| RemoveDocument
| VoiceClick
| MicrophoneSettled bool
| DataAvailable blob
| RecorderStopped
| VoiceSettled entropy js_string "'n fetch_outcome"
| MouseUp "(js_string \<times> 'n \<times> 'n) option"
| AskClick entropy js_string
| ReferenceTextChange js_string
| UseInChat
| CancelReference
| ExportClick bool

fun handle :: "('n::zero) runtime \<Rightarrow> 'n state \<Rightarrow> 'n event \<Rightarrow> 'n state \<Rightarrow> 'n state" where
  "handle rt r (ConversationEffect e throws) st = st"
| "handle rt r (InputChange v) st = st\<lparr>inputValue := v\<rparr>"
| "handle rt r (KeyDownEnter e now) st =
     (if \<not> isLoading r then fst (handleSendMessage_call r e now st) else st)"
| "handle rt r (SendClick e now) st =
     (if trim (inputValue r) = [] \<or> isLoading r then st
      else fst (handleSendMessage_call r e now st))"
| "handle rt r SendMessageReturned st = handleSendMessage_resume st"
| "handle rt r (QuerySettled e outcome) st = sendQuery_resume rt e outcome st"
| "handle rt r OpenUploadModal st = st\<lparr>showUploadModal := True\<rparr>"
| "handle rt r CloseUploadModal st = st\<lparr>showUploadModal := False\<rparr>"
| "handle rt r DragOver st = st\<lparr>isDragging := True\<rparr>"
| "handle rt r DragLeave st = st\<lparr>isDragging := False\<rparr>"
| "handle rt r (Drop files) st = first_file files (st\<lparr>isDragging := False\<rparr>)"
| "handle rt r (FileInputChange files) st = first_file files st"
| "handle rt r RemoveSelectedFile st = st\<lparr>uploadedFile := None\<rparr>"
| "handle rt r UploadClick st = (if isUploading r then st else fst (handleUpload_call r st))"
| "handle rt r (UploadProgress lengthComputable pct) st =
     (if lengthComputable then st\<lparr>uploadProgress := Some pct\<rparr> else st)"
| "handle rt r (UploadSettled x) st =
     (case uploadedFile r of
        None \<Rightarrow> st
      | Some f \<Rightarrow> handleUpload_resume rt f (uploadWithProgress x) st)"
| "handle rt r SuccessTimeout st = st\<lparr>showSuccess := False\<rparr>"
| "handle rt r RemoveDocument st = st\<lparr>uploadedDoc := None\<rparr>"
| "handle rt r VoiceClick st = fst (handleVoiceInput_call r st)"
| "handle rt r (MicrophoneSettled granted) st = handleVoiceInput_resume granted st"
| "handle rt r (DataAvailable b) st = ondataavailable b st"
| "handle rt r RecorderStopped st =
     fst (onstop_call rt r (st\<lparr>mediaRecorderRef := map_option (\<lambda>_. Inactive) (mediaRecorderRef st)\<rparr>))"
| "handle rt r (VoiceSettled e now outcome) st = fst (onstop_resume r e now outcome st)"
| "handle rt r (MouseUp sel) st = handleMouseUp sel st"
| "handle rt r (AskClick e now) st = fst (handleAskAgoraLearn r e now st)"
| "handle rt r (ReferenceTextChange v) st = st\<lparr>referenceText := v\<rparr>"
| "handle rt r UseInChat st = use_reference r st"
| "handle rt r CancelReference st = st\<lparr>referencePopup := False\<rparr>"
| "handle rt r (ExportClick threw) st = exportConversation threw st"

definition step :: "('n::zero) runtime \<Rightarrow> 'n state \<Rightarrow> 'n event \<Rightarrow> 'n page \<Rightarrow> 'n page" where
  "step rt r ev p =
     (case ev of
        ConversationEffect e throws \<Rightarrow> conversation_effect e throws p
      | _ \<Rightarrow> p\<lparr>ui := handle rt r ev (ui p)\<rparr>)"

fun run :: "('n::zero) runtime \<Rightarrow> ('n state \<times> 'n event) list \<Rightarrow> 'n page \<Rightarrow> 'n page" where
  "run rt [] p = p"
| "run rt ((r, ev) # evs) p = run rt evs (step rt r ev p)"

definition session ::
  "('n::zero) runtime \<Rightarrow> js_string \<Rightarrow> bool \<Rightarrow> entropy \<Rightarrow> bool \<Rightarrow> ('n state \<times> 'n event) list \<Rightarrow>
   local_storage \<Rightarrow> 'n page" where
  \<comment> \<open>one application load on the storage \<open>sto\<close>, and the events that follow it\<close>
  "session rt now get_throws e set_throws evs sto = run rt evs (load now get_throws e set_throws sto)"

section \<open>The specification's words for requests and responses\<close>

text \<open>
  The specification names a value by the fields it may stand under: "\<open>file.id\<close>, else
  \<open>docId\<close>, else \<open>id\<close>". \<open>first_present\<close> is that phrase: the first of the values
  that is there, where a field that is absent or \<open>null\<close> is not there. The definitions
  below follow the specification (sections 4.3, 4.4, 6 and 7); the lemmas after them
  compare the code's \<open>?.\<close> and \<open>??\<close> chains with them.
\<close>

fun first_present :: "'n js_value list \<Rightarrow> 'n js_value" where
  "first_present [] = None"
| "first_present (None # vs) = first_present vs"
| "first_present (Some JNull # vs) = first_present vs"
| "first_present (Some v # vs) = Some v"

definition nested_prop :: "'n json \<Rightarrow> js_string \<Rightarrow> js_string \<Rightarrow> 'n js_value" where
  "nested_prop j k k' = (case get_prop j k of None \<Rightarrow> None | Some v \<Rightarrow> get_prop v k')"

definition response_document_id :: "'n json \<Rightarrow> 'n js_value" where
  "response_document_id data =
     first_present [nested_prop data (js ''file'') (js ''id''), get_prop data (js ''docId''),
                    get_prop data (js ''id'')]"


definition response_answer :: "'n json \<Rightarrow> 'n js_value" where
  "response_answer body =
     first_present [get_prop body (js ''answer''), get_prop body (js ''assistantText''),
                    (case body of JStr s \<Rightarrow> Some (JStr s) | _ \<Rightarrow> None)]"

definition response_transcript :: "'n json \<Rightarrow> 'n js_value" where
  "response_transcript j = first_present [get_prop j (js ''question''), get_prop j (js ''transcript'')]"





text \<open>
  A request fails when \<open>fetch\<close> rejects (a network error) or the status is not a success
  status; the message recorded for display is the error's.
\<close>

definition request_failed :: "'n fetch_outcome \<Rightarrow> bool" where
  "request_failed outcome =
     (case outcome of FetchFailed msg \<Rightarrow> True | FetchResponse status parsed \<Rightarrow> \<not> res_ok status)"

definition failure_message :: "'n fetch_outcome \<Rightarrow> js_string" where
  "failure_message outcome =
     (case outcome of FetchFailed msg \<Rightarrow> msg
      | FetchResponse status parsed \<Rightarrow> js ''Server error '' @ decimal status)"


subsection \<open>The code against these words\<close>

lemma opt_chain_Some: "opt_chain (Some j) k = get_prop j k"
  by (cases j) (simp_all add: opt_chain_def)

lemma opt_chain_get_prop: "opt_chain (get_prop j k) k' = nested_prop j k k'"
proof (cases "get_prop j k")
  case None
  then show ?thesis by (simp add: opt_chain_def nested_prop_def)
next
  case (Some v)
  then show ?thesis by (cases v) (simp_all add: opt_chain_def nested_prop_def)
qed

lemma nullish_simps [simp]: "nullish None" "nullish (Some JNull)"
  by (simp_all add: nullish_def)

lemma first_present_Cons:
  "first_present (a # vs) = (if nullish a then first_present vs else a)"
proof (cases a)
  case None
  then show ?thesis by (simp add: nullish_def)
next
  case (Some v)
  then show ?thesis by (cases v) (simp_all add: nullish_def)
qed

lemma first_present_not_null: "first_present vs \<noteq> Some JNull"
  by (induction vs) (auto simp: first_present_Cons nullish_def)


lemma upload_id_None: "response_document_id data = None \<Longrightarrow> nullish (upload_id data)"
  by (auto simp: response_document_id_def upload_id_def opt_chain_Some opt_chain_get_prop
        first_present_Cons coalesce_def split: if_splits)



lemma converse_answer_None: "response_answer body = None \<Longrightarrow> converse_answer body = JStr []"
  by (cases body)
     (auto simp: response_answer_def converse_answer_def opt_chain_Some
        first_present_Cons coalesce_def nullish_def split: if_splits option.splits)

lemma voice_question_Some: "response_transcript j = Some v \<Longrightarrow> voice_question j = Some v"
  by (auto simp: response_transcript_def voice_question_def opt_chain_Some
        first_present_Cons coalesce_def split: if_splits)

lemma voice_question_None: "response_transcript j = None \<Longrightarrow> nullish (voice_question j)"
  by (auto simp: response_transcript_def voice_question_def opt_chain_Some
        first_present_Cons coalesce_def split: if_splits)





lemma sendQuery_resume_ok:
  assumes "res_ok status" "js_String rt (converse_answer body) = Some text"
  shows "sendQuery_resume rt e (FetchResponse status (Inr body)) st =
     st\<lparr>messages := messages st @
          [\<lparr>msg_id = makeId (js ''a-'') e, msg_role = Assistant, msg_content = text,
            msg_createdAt = None\<rparr>],
        isLoading := False\<rparr>"
  using assms by (simp add: sendQuery_resume_def sendQuery_try_def pushMessage_def)

lemma sendQuery_resume_failed:
  assumes "request_failed outcome"
  shows "sendQuery_resume rt e outcome st =
     st\<lparr>messages := messages st @
          [\<lparr>msg_id = makeId (js ''a-'') e, msg_role = Assistant, msg_content = fallback_text,
            msg_createdAt = None\<rparr>],
        error := Some (failure_message outcome),
        isLoading := False\<rparr>"
  using assms
  by (auto simp: sendQuery_resume_def sendQuery_try_def sendQuery_catch_def pushMessage_def
        request_failed_def failure_message_def split: fetch_outcome.splits)

text \<open>
  What the voice handler forwards (section 4.3): the transcript, when it is a string that
  is not empty after trimming.
\<close>

definition heard_question :: "'n json \<Rightarrow> js_string option" where
  "heard_question j =
     (case response_transcript j of
        Some (JStr q) \<Rightarrow> if trim q \<noteq> [] then Some q else None
      | _ \<Rightarrow> None)"


subsection \<open>Values for the examples\<close>

text \<open>
  A runtime whose numbers are the naturals, a storage that holds a conversation
  identifier, the state right after the first render on it, a selected file and a stored
  document. \<open>demo_recording\<close> is a run of the page: a file is chosen and its upload
  started, a recording is started in the render \<open>demo_click_render\<close> (no document
  yet), the upload completes while it runs, and the recorder stops.
\<close>

definition demo_runtime :: "nat runtime" where
  "demo_runtime = \<lparr>number_truthy = (\<lambda>n. n \<noteq> 0), number_text = decimal,
                    type_error_message = js ''Cannot convert object to primitive value''\<rparr>"

definition demo_state :: "nat state" where
  "demo_state = initial_state (js ''2025-01-01T00:00:00.000Z'') (Some (js ''conv-1''))"

definition demo_file :: js_file where
  "demo_file = \<lparr>file_blob = \<lparr>blob_bytes = [0x25, 0x50, 0x44, 0x46], blob_type = js ''application/pdf''\<rparr>,
                 file_name = js ''local.pdf''\<rparr>"

definition demo_storage :: local_storage where
  "demo_storage = Map.empty(conversation_key \<mapsto> js ''conv-1'')"






lemma handleUpload_resume_missing:
  assumes "response_document_id data = None"
  shows "handleUpload_resume rt f (Resolved data) st =
     handleUpload_resume rt f (Rejected (js ''Upload response missing id'')) st"
proof -
  from upload_id_None [OF assms] have "upload_id data = None \<or> upload_id data = Some JNull"
    by (simp add: nullish_def)
  then show ?thesis
    by (auto simp: handleUpload_resume_def handleUpload_try_def)
qed


section \<open>Claims about the orchestrator\<close>

text \<open>
  C9. For every query text whose trimmed form is empty, \<open>sendQuery\<close> returns at once:
  the state is left exactly as it was (no message, no loading flag, no error reset) and
  no request is issued. The whole call against any server is the identity on the state.
\<close>

theorem sendQuery_blank_is_noop:
  "trim queryText = [] \<Longrightarrow>
   sendQuery_call r e now queryText st = (st, None) \<and>
   sendQuery rt server r e now e' queryText st = st"
  by (simp add: sendQuery_call_def sendQuery_def)

theorem sendQuery_blank_is_noop_witness:
  "trim (js ''  '') = [] \<and>
   sendQuery_call demo_state (UUID (js ''1'')) (js ''t'') (js ''  '') demo_state = (demo_state, None) \<and>
   sendQuery demo_runtime (\<lambda>req. FetchFailed (js ''offline'')) demo_state (UUID (js ''1'')) (js ''t'')
     (UUID (js ''2'')) (js ''  '') demo_state = demo_state"
proof -
  have t: "trim (js ''  '') = []"
    by (simp add: trim_def js_def is_white_space_def)
  from sendQuery_blank_is_noop [OF t] t show ?thesis by simp
qed




text \<open>
  C3. For every query whose request fails (\<open>fetch\<close> rejects, or the status is not a
  success status), the rest of \<open>sendQuery\<close> appends exactly one assistant message with
  the fixed fallback text to the log as it then is, whatever it holds, and records the
  error; over a whole call the log is the old log, the user message and the fallback
  message, in this order.
\<close>

theorem sendQuery_failure_fallback:
  assumes "request_failed outcome"
  shows "messages (sendQuery_resume rt e' outcome st') =
           messages st' @
             [\<lparr>msg_id = makeId (js ''a-'') e', msg_role = Assistant, msg_content = fallback_text,
               msg_createdAt = None\<rparr>] \<and>
         error (sendQuery_resume rt e' outcome st') = Some (failure_message outcome) \<and>
         (trim queryText \<noteq> [] \<and> server (converse_request r queryText) = outcome \<longrightarrow>
            messages (sendQuery rt server r e now e' queryText st) =
              messages st @
                [\<lparr>msg_id = makeId (js ''u-'') e, msg_role = User, msg_content = queryText,
                  msg_createdAt = Some now\<rparr>,
                 \<lparr>msg_id = makeId (js ''a-'') e', msg_role = Assistant, msg_content = fallback_text,
                  msg_createdAt = None\<rparr>])"
  by (simp add: sendQuery_resume_failed [OF assms] sendQuery_def sendQuery_call_def pushMessage_def)

theorem sendQuery_failure_fallback_witness:
  "request_failed (FetchResponse 500 (Inl (js ''no body'')) :: nat fetch_outcome) \<and>
   messages (sendQuery demo_runtime (\<lambda>req. FetchResponse 500 (Inl (js ''no body''))) demo_state
       (UUID (js ''7'')) (js ''t1'') (UUID (js ''8'')) (js ''What is x?'') demo_state) =
     messages demo_state @
       [\<lparr>msg_id = js ''u-7'', msg_role = User, msg_content = js ''What is x?'',
         msg_createdAt = Some (js ''t1'')\<rparr>,
        \<lparr>msg_id = js ''a-8'', msg_role = Assistant, msg_content = fallback_text,
         msg_createdAt = None\<rparr>] \<and>
   error (sendQuery_resume demo_runtime (UUID (js ''8''))
       (FetchResponse 500 (Inl (js ''no body''))) demo_state) = Some (js ''Server error 500'')"
proof -
  have f: "request_failed (FetchResponse 500 (Inl (js ''no body'')) :: nat fetch_outcome)"
    by (simp add: request_failed_def res_ok_def)
  have t: "trim (js ''What is x?'') \<noteq> []"
    by (simp add: trim_def js_def is_white_space_def)
  have d: "decimal 500 = js ''500''"
    by (simp add: decimal.simps js_def)
  from sendQuery_failure_fallback [OF f, of demo_runtime "UUID (js ''8'')" demo_state
      "js ''What is x?''" "\<lambda>req. FetchResponse 500 (Inl (js ''no body''))" demo_state
      "UUID (js ''7'')" "js ''t1''" demo_state] f t d
  show ?thesis by (simp add: failure_message_def js_def)
qed




section \<open>What no event changes\<close>

text \<open>
  Two frame properties of every handler, and so of every event: the log is only ever
  extended at its end, and the conversation identifier is written by the effect alone.
\<close>

lemma sendQuery_call_frame:
  "prefix (messages st) (messages (fst (sendQuery_call r e now q st)))"
  "conversationId (fst (sendQuery_call r e now q st)) = conversationId st"
  by (simp_all add: sendQuery_call_def pushMessage_def)

lemma sendQuery_catch_frame:
  "prefix (messages st) (messages (sendQuery_catch e msg st))"
  "conversationId (sendQuery_catch e msg st) = conversationId st"
  by (simp_all add: sendQuery_catch_def pushMessage_def)

lemma sendQuery_resume_frame:
  "prefix (messages st) (messages (sendQuery_resume rt e outcome st))"
  "conversationId (sendQuery_resume rt e outcome st) = conversationId st"
  by (auto simp: sendQuery_resume_def sendQuery_try_def sendQuery_catch_frame pushMessage_def
        split: fetch_outcome.splits sum.splits option.splits)

lemma voice_notice_frame:
  "prefix (messages st) (messages (voice_notice e text st))"
  "conversationId (voice_notice e text st) = conversationId st"
  by (simp_all add: voice_notice_def pushMessage_def)

lemma onstop_resume_frame:
  "prefix (messages st) (messages (fst (onstop_resume r e now outcome st)))"
  "conversationId (fst (onstop_resume r e now outcome st)) = conversationId st"
  by (auto simp: onstop_resume_def voice_notice_frame sendQuery_call_frame
        split: fetch_outcome.splits sum.splits option.splits json.splits)

lemma onstop_call_frame:
  "messages (fst (onstop_call rt r st)) = messages st"
  "conversationId (fst (onstop_call rt r st)) = conversationId st"
  by (auto simp: onstop_call_def Let_def split: option.splits)

lemma handleUpload_frame:
  "messages (fst (handleUpload_call r st)) = messages st"
  "conversationId (fst (handleUpload_call r st)) = conversationId st"
  "messages (handleUpload_resume rt f outcome st) = messages st"
  "conversationId (handleUpload_resume rt f outcome st) = conversationId st"
  by (auto simp: handleUpload_call_def handleUpload_resume_def handleUpload_try_def
        split: option.splits settled.splits)

lemma handleSendMessage_frame:
  "prefix (messages st) (messages (fst (handleSendMessage_call r e now st)))"
  "conversationId (fst (handleSendMessage_call r e now st)) = conversationId st"
  by (simp_all add: handleSendMessage_call_def sendQuery_call_frame)

lemma handleAskAgoraLearn_frame:
  "prefix (messages st) (messages (fst (handleAskAgoraLearn r e now st)))"
  "conversationId (fst (handleAskAgoraLearn r e now st)) = conversationId st"
proof -
  have "prefix (messages (st\<lparr>referencePopup := False\<rparr>))
          (messages (fst (sendQuery_call r e now q (st\<lparr>referencePopup := False\<rparr>))))" for q
    by (rule sendQuery_call_frame)
  then show "prefix (messages st) (messages (fst (handleAskAgoraLearn r e now st)))"
    by (simp add: handleAskAgoraLearn_def split: option.splits)
  show "conversationId (fst (handleAskAgoraLearn r e now st)) = conversationId st"
    by (simp add: handleAskAgoraLearn_def sendQuery_call_frame split: option.splits)
qed

lemma small_handlers_frame:
  "messages (first_file files st) = messages st"
  "conversationId (first_file files st) = conversationId st"
  "messages (fst (handleVoiceInput_call r st)) = messages st"
  "conversationId (fst (handleVoiceInput_call r st)) = conversationId st"
  "messages (handleVoiceInput_resume granted st) = messages st"
  "conversationId (handleVoiceInput_resume granted st) = conversationId st"
  "messages (ondataavailable b st) = messages st"
  "conversationId (ondataavailable b st) = conversationId st"
  "messages (handleMouseUp sel st) = messages st"
  "conversationId (handleMouseUp sel st) = conversationId st"
  "messages (handleSendMessage_resume st) = messages st"
  "conversationId (handleSendMessage_resume st) = conversationId st"
  "messages (exportConversation threw st) = messages st"
  "conversationId (exportConversation threw st) = conversationId st"
  "messages (use_reference r st) = messages st"
  "conversationId (use_reference r st) = conversationId st"
  by (simp_all add: first_file_def handleFileSelect_def handleVoiceInput_call_def
        handleVoiceInput_resume_def ondataavailable_def handleMouseUp_def
        handleSendMessage_resume_def exportConversation_def use_reference_def
        split: list.splits option.splits prod.splits)

lemma handle_messages: "prefix (messages st) (messages (handle rt r ev st))"
  by (cases ev)
     (simp_all add: sendQuery_resume_frame onstop_resume_frame onstop_call_frame handleUpload_frame
        handleSendMessage_frame handleAskAgoraLearn_frame small_handlers_frame
        split: option.splits)

lemma handle_conversationId: "conversationId (handle rt r ev st) = conversationId st"
  by (cases ev)
     (simp_all add: sendQuery_resume_frame onstop_resume_frame onstop_call_frame handleUpload_frame
        handleSendMessage_frame handleAskAgoraLearn_frame small_handlers_frame
        split: option.splits)


lemma step_messages: "prefix (messages (ui p)) (messages (ui (step rt r ev p)))"
proof (cases ev)
  case (ConversationEffect e throws)
  then show ?thesis by (simp add: step_def conversation_effect_def Let_def)
qed (use handle_messages [of "ui p" rt r ev] in \<open>simp_all add: step_def\<close>)

lemma run_messages: "prefix (messages (ui p)) (messages (ui (run rt evs p)))"
proof (induction evs arbitrary: p)
  case Nil
  show ?case by simp
next
  case (Cons x evs)
  obtain r ev where x: "x = (r, ev)" by (cases x)
  from step_messages [of p rt r ev] Cons.IH [of "step rt r ev p"] x show ?case
    by (auto intro: prefix_order.trans)
qed

lemma step_settled:
  assumes "truthy_string (conversationId (ui p))"
  shows "conversationId (ui (step rt r ev p)) = conversationId (ui p) \<and>
         localStorage (step rt r ev p) = localStorage p"
proof (cases ev)
  case (ConversationEffect e throws)
  with assms show ?thesis by (simp add: step_def conversation_effect_def)
qed (simp_all add: step_def handle_conversationId del: handle.simps)

lemma run_settled:
  "truthy_string (conversationId (ui p)) \<Longrightarrow>
   conversationId (ui (run rt evs p)) = conversationId (ui p) \<and>
   localStorage (run rt evs p) = localStorage p"
proof (induction evs arbitrary: p)
  case Nil
  show ?case by simp
next
  case (Cons x evs)
  obtain r ev where x: "x = (r, ev)" by (cases x)
  from step_settled [OF Cons.prems, of rt r ev]
  have s: "conversationId (ui (step rt r ev p)) = conversationId (ui p)"
      "localStorage (step rt r ev p) = localStorage p"
    by simp_all
  with Cons.prems have "truthy_string (conversationId (ui (step rt r ev p)))" by simp
  from Cons.IH [OF this] s x show ?case by simp
qed

lemma makeId_conv_nonempty: "makeId (js ''conv-'') e \<noteq> []"
  by (cases e) (simp_all add: js_def)

lemma load_existing:
  assumes "sto conversation_key = Some c" "c \<noteq> []"
  shows "conversationId (ui (load now False e s sto :: 'n page)) = Some c"
    and "localStorage (load now False e s sto :: 'n page) = sto"
  using assms
  by (simp_all add: load_def first_render_def conversation_effect_def initial_state_def
        read_conversationId_def getItem_def)

lemma load_fresh:
  assumes "sto conversation_key = None \<or> sto conversation_key = Some []"
  shows "conversationId (ui (load now False e False sto :: 'n page)) = Some (makeId (js ''conv-'') e)"
    and "localStorage (load now False e False sto :: 'n page) =
           sto(conversation_key \<mapsto> makeId (js ''conv-'') e)"
  using assms
  by (auto simp: load_def first_render_def conversation_effect_def initial_state_def
        read_conversationId_def getItem_def setItem_def Let_def)

lemma session_settled:
  fixes rt :: "('n::zero) runtime"
  assumes "conversationId (ui (load now g e s sto :: 'n page)) = Some c" "c \<noteq> []"
  shows "conversationId (ui (session rt now g e s evs sto)) = Some c"
    and "localStorage (session rt now g e s evs sto) = localStorage (load now g e s sto :: 'n page)"
proof -
  from assms have "truthy_string (conversationId (ui (load now g e s sto :: 'n page)))" by simp
  from run_settled [OF this, of rt evs] assms
  show "conversationId (ui (session rt now g e s evs sto)) = Some c"
    and "localStorage (session rt now g e s evs sto) = localStorage (load now g e s sto :: 'n page)"
    by (simp_all add: session_def)
qed

lemma session_existing:
  fixes rt :: "('n::zero) runtime"
  assumes "sto conversation_key = Some c" "c \<noteq> []"
  shows "conversationId (ui (session rt now False e s evs sto)) = Some c"
    and "localStorage (session rt now False e s evs sto) = sto"
proof -
  have l: "conversationId (ui (load now False e s sto :: 'n page)) = Some c"
    using assms by (rule load_existing)
  have k: "localStorage (load now False e s sto :: 'n page) = sto"
    using assms by (rule load_existing)
  show "conversationId (ui (session rt now False e s evs sto)) = Some c"
    using l assms(2) by (rule session_settled)
  have "localStorage (session rt now False e s evs sto) = localStorage (load now False e s sto :: 'n page)"
    using l assms(2) by (rule session_settled)
  with k show "localStorage (session rt now False e s evs sto) = sto" by simp
qed

lemma session_fresh:
  fixes rt :: "('n::zero) runtime"
  assumes "sto conversation_key = None \<or> sto conversation_key = Some []"
  shows "conversationId (ui (session rt now False e False evs sto)) = Some (makeId (js ''conv-'') e)"
    and "localStorage (session rt now False e False evs sto) =
           sto(conversation_key \<mapsto> makeId (js ''conv-'') e)"
proof -
  have l: "conversationId (ui (load now False e False sto :: 'n page)) = Some (makeId (js ''conv-'') e)"
    using assms by (rule load_fresh)
  have k: "localStorage (load now False e False sto :: 'n page) =
      sto(conversation_key \<mapsto> makeId (js ''conv-'') e)"
    using assms by (rule load_fresh)
  show "conversationId (ui (session rt now False e False evs sto)) = Some (makeId (js ''conv-'') e)"
    using l makeId_conv_nonempty by (rule session_settled)
  have "localStorage (session rt now False e False evs sto) =
      localStorage (load now False e False sto :: 'n page)"
    using l makeId_conv_nonempty by (rule session_settled)
  with k show "localStorage (session rt now False e False evs sto) =
      sto(conversation_key \<mapsto> makeId (js ''conv-'') e)"
    by simp
qed

lemma session_stores_identifier:
  fixes rt :: "('n::zero) runtime"
  shows "\<exists>c. c \<noteq> [] \<and> conversationId (ui (session rt now False e False evs sto)) = Some c \<and>
       localStorage (session rt now False e False evs sto) conversation_key = Some c"
proof (cases "sto conversation_key = None \<or> sto conversation_key = Some []")
  case True
  have "conversationId (ui (session rt now False e False evs sto)) = Some (makeId (js ''conv-'') e)"
    using True by (rule session_fresh)
  moreover have "localStorage (session rt now False e False evs sto) =
      sto(conversation_key \<mapsto> makeId (js ''conv-'') e)"
    using True by (rule session_fresh)
  ultimately show ?thesis using makeId_conv_nonempty [of e] by simp
next
  case False
  then obtain c where c: "sto conversation_key = Some c" "c \<noteq> []" by auto
  have "conversationId (ui (session rt now False e False evs sto)) = Some c"
    using c by (rule session_existing)
  moreover have "localStorage (session rt now False e False evs sto) = sto"
    using c by (rule session_existing)
  ultimately show ?thesis using c by simp
qed

section \<open>Claims about malformed responses and voice input\<close>

text \<open>
  C5, as the claim states it, fails for the converse endpoint: line 285 ends its chain
  with \<open>typeof body === "string" ? body : ""\<close>, so a response with a success status
  that has neither \<open>answer\<close> nor \<open>assistantText\<close> and is no string is answered with an
  assistant message of empty content, and no error is recorded. Here the body is \<open>{}\<close>.
\<close>

theorem malformed_response_counterexample:
  "res_ok 200 \<and> response_answer (JObj [] :: nat json) = None \<and>
   messages (sendQuery_resume demo_runtime (UUID (js ''8'')) (FetchResponse 200 (Inr (JObj [])))
       demo_state) =
     messages demo_state @
       [\<lparr>msg_id = js ''a-8'', msg_role = Assistant, msg_content = [], msg_createdAt = None\<rparr>] \<and>
   error (sendQuery_resume demo_runtime (UUID (js ''8'')) (FetchResponse 200 (Inr (JObj [])))
       demo_state) = None"
  by (simp add: res_ok_def response_answer_def sendQuery_resume_def sendQuery_try_def
        converse_answer_def opt_chain_def coalesce_def nullish_def pushMessage_def
        demo_state_def initial_state_def js_def)

text \<open>
  C5, amended. An upload response with none of \<open>file.id\<close>, \<open>docId\<close>, \<open>id\<close> fails
  exactly as a transport error with the message \<open>Upload response missing id\<close> does:
  the error is recorded and the active document is left as it was. A converse response
  with a success status that has neither \<open>answer\<close> nor \<open>assistantText\<close> and is not a
  raw string does not fail: exactly one assistant message with empty content is appended,
  the loading flag is cleared, and nothing else changes (no error, no fallback text).
\<close>

theorem malformed_response_handling:
  "(response_document_id data = None \<longrightarrow>
      handleUpload_resume rt f (Resolved data) st =
        handleUpload_resume rt f (Rejected (js ''Upload response missing id'')) st \<and>
      error (handleUpload_resume rt f (Resolved data) st) = Some (js ''Upload response missing id'') \<and>
      uploadedDoc (handleUpload_resume rt f (Resolved data) st) = uploadedDoc st) \<and>
   (res_ok status \<and> response_answer body = None \<longrightarrow>
      sendQuery_resume rt e (FetchResponse status (Inr body)) st' =
        st'\<lparr>messages := messages st' @
               [\<lparr>msg_id = makeId (js ''a-'') e, msg_role = Assistant, msg_content = [],
                 msg_createdAt = None\<rparr>],
            isLoading := False\<rparr>)"
proof (intro conjI impI)
  assume n: "response_document_id data = None"
  show "handleUpload_resume rt f (Resolved data) st =
        handleUpload_resume rt f (Rejected (js ''Upload response missing id'')) st"
    by (rule handleUpload_resume_missing [OF n])
  then show "error (handleUpload_resume rt f (Resolved data) st) = Some (js ''Upload response missing id'')"
    and "uploadedDoc (handleUpload_resume rt f (Resolved data) st) = uploadedDoc st"
    by (simp_all add: handleUpload_resume_def handleUpload_try_def)
next
  assume a: "res_ok status \<and> response_answer body = None"
  then have "js_String rt (converse_answer body) = Some []"
    by (simp add: converse_answer_None)
  with a show "sendQuery_resume rt e (FetchResponse status (Inr body)) st' =
        st'\<lparr>messages := messages st' @
               [\<lparr>msg_id = makeId (js ''a-'') e, msg_role = Assistant, msg_content = [],
                 msg_createdAt = None\<rparr>],
            isLoading := False\<rparr>"
    by (simp add: sendQuery_resume_ok)
qed

theorem malformed_response_handling_witness:
  "response_document_id (JObj [(js ''ok'', JBool True)] :: nat json) = None \<and>
   error (handleUpload_resume demo_runtime demo_file (Resolved (JObj [(js ''ok'', JBool True)]))
       demo_state) = Some (js ''Upload response missing id'') \<and>
   uploadedDoc (handleUpload_resume demo_runtime demo_file (Resolved (JObj [(js ''ok'', JBool True)]))
       demo_state) = uploadedDoc demo_state \<and>
   res_ok 200 \<and> response_answer (JObj [(js ''ok'', JBool True)] :: nat json) = None \<and>
   map msg_content (messages (sendQuery_resume demo_runtime (UUID (js ''8''))
       (FetchResponse 200 (Inr (JObj [(js ''ok'', JBool True)]))) demo_state)) =
     [welcome_text, []]"
proof -
  have i: "response_document_id (JObj [(js ''ok'', JBool True)] :: nat json) = None"
    by (simp add: response_document_id_def nested_prop_def js_def)
  have a: "res_ok 200 \<and> response_answer (JObj [(js ''ok'', JBool True)] :: nat json) = None"
    by (simp add: res_ok_def response_answer_def js_def)
  have m: "messages demo_state =
      [\<lparr>msg_id = js ''welcome'', msg_role = Assistant, msg_content = welcome_text,
        msg_createdAt = Some (js ''2025-01-01T00:00:00.000Z'')\<rparr>]"
    by (simp add: demo_state_def initial_state_def)
  note T = malformed_response_handling [of "JObj [(js ''ok'', JBool True)]" demo_runtime demo_file
      demo_state 200 "JObj [(js ''ok'', JBool True)]" "UUID (js ''8'')" demo_state]
  from T i
  have u: "error (handleUpload_resume demo_runtime demo_file (Resolved (JObj [(js ''ok'', JBool True)]))
       demo_state) = Some (js ''Upload response missing id'')"
    "uploadedDoc (handleUpload_resume demo_runtime demo_file (Resolved (JObj [(js ''ok'', JBool True)]))
       demo_state) = uploadedDoc demo_state"
    by blast+
  from T a
  have "sendQuery_resume demo_runtime (UUID (js ''8''))
       (FetchResponse 200 (Inr (JObj [(js ''ok'', JBool True)]))) demo_state =
     demo_state\<lparr>messages := messages demo_state @
          [\<lparr>msg_id = makeId (js ''a-'') (UUID (js ''8'')), msg_role = Assistant, msg_content = [],
            msg_createdAt = None\<rparr>],
        isLoading := False\<rparr>"
    by blast
  then have q: "map msg_content (messages (sendQuery_resume demo_runtime (UUID (js ''8''))
       (FetchResponse 200 (Inr (JObj [(js ''ok'', JBool True)]))) demo_state)) =
     [welcome_text, []]"
    by (simp add: m)
  from i a u q show ?thesis by blast
qed

text \<open>
  C8. When the transcription request completes with a success status and a parsed
  body: if the transcript (the first present of \<open>question\<close> and \<open>transcript\<close>) is a
  string that is not empty after trimming, the handler does exactly what a call of
  \<open>sendQuery\<close> with it does, in the same render, and sends that query request;
  otherwise exactly one assistant message "I couldn't hear a question." is appended, the
  rest of the state is unchanged, and no request is sent.
\<close>

theorem voice_transcript_forwarded:
  assumes "res_ok status"
  shows "(heard_question j = Some q \<longrightarrow>
            onstop_resume r e now (FetchResponse status (Inr j)) st = sendQuery_call r e now q st \<and>
            snd (onstop_resume r e now (FetchResponse status (Inr j)) st) =
              Some (converse_request r q)) \<and>
         (heard_question j = None \<longrightarrow>
            onstop_resume r e now (FetchResponse status (Inr j)) st =
              (st\<lparr>messages := messages st @
                    [\<lparr>msg_id = makeId (js ''a-'') e, msg_role = Assistant,
                      msg_content = not_heard_text, msg_createdAt = None\<rparr>]\<rparr>,
               None))"
proof (intro conjI impI)
  assume h: "heard_question j = Some q"
  then have t: "response_transcript j = Some (JStr q)" "trim q \<noteq> []"
    by (auto simp: heard_question_def split: option.splits json.splits if_splits)
  from voice_question_Some [OF t(1)] t(2) assms
  show f: "onstop_resume r e now (FetchResponse status (Inr j)) st = sendQuery_call r e now q st"
    by (simp add: onstop_resume_def)
  from t(2) show "snd (onstop_resume r e now (FetchResponse status (Inr j)) st) =
              Some (converse_request r q)"
    by (simp add: f sendQuery_call_def)
next
  assume h: "heard_question j = None"
  show "onstop_resume r e now (FetchResponse status (Inr j)) st =
              (st\<lparr>messages := messages st @
                    [\<lparr>msg_id = makeId (js ''a-'') e, msg_role = Assistant,
                      msg_content = not_heard_text, msg_createdAt = None\<rparr>]\<rparr>,
               None)"
  proof (cases "response_transcript j")
    case None
    from voice_question_None [OF None] have "voice_question j = None \<or> voice_question j = Some JNull"
      by (simp add: nullish_def)
    with assms show ?thesis
      by (auto simp: onstop_resume_def voice_notice_def pushMessage_def)
  next
    case (Some v)
    from voice_question_Some [OF Some] have vq: "voice_question j = Some v" .
    from h Some have "\<forall>s. v = JStr s \<longrightarrow> trim s = []"
      by (auto simp: heard_question_def split: if_splits)
    with vq assms show ?thesis
      by (cases v) (simp_all add: onstop_resume_def voice_notice_def pushMessage_def)
  qed
qed

theorem voice_transcript_forwarded_witness:
  "res_ok 200 \<and>
   heard_question (JObj [(js ''question'', JStr (js ''What is x?''))] :: nat json) = Some (js ''What is x?'') \<and>
   onstop_resume demo_state (UUID (js ''7'')) (js ''t1'')
       (FetchResponse 200 (Inr (JObj [(js ''question'', JStr (js ''What is x?''))]))) demo_state =
     sendQuery_call demo_state (UUID (js ''7'')) (js ''t1'') (js ''What is x?'') demo_state \<and>
   heard_question (JObj [(js ''transcript'', JStr (js ''  ''))] :: nat json) = None \<and>
   map msg_content (messages (fst (onstop_resume demo_state (UUID (js ''7'')) (js ''t1'')
       (FetchResponse 200 (Inr (JObj [(js ''transcript'', JStr (js ''  ''))]))) demo_state))) =
     [welcome_text, not_heard_text] \<and>
   snd (onstop_resume demo_state (UUID (js ''7'')) (js ''t1'')
       (FetchResponse 200 (Inr (JObj [(js ''transcript'', JStr (js ''  ''))]))) demo_state) = None"
proof -
  have ok: "res_ok 200" by (simp add: res_ok_def)
  have t: "trim (js ''What is x?'') \<noteq> []" "trim (js ''  '') = []"
    by (simp_all add: trim_def js_def is_white_space_def)
  have h1: "heard_question (JObj [(js ''question'', JStr (js ''What is x?''))] :: nat json) = Some (js ''What is x?'')"
    using t by (simp add: heard_question_def response_transcript_def)
  have h2: "heard_question (JObj [(js ''transcript'', JStr (js ''  ''))] :: nat json) = None"
    using t by (simp add: heard_question_def response_transcript_def js_def)
  have m: "messages demo_state =
      [\<lparr>msg_id = js ''welcome'', msg_role = Assistant, msg_content = welcome_text,
        msg_createdAt = Some (js ''2025-01-01T00:00:00.000Z'')\<rparr>]"
    by (simp add: demo_state_def initial_state_def)
  note T1 = voice_transcript_forwarded [OF ok, of "JObj [(js ''question'', JStr (js ''What is x?''))]"
      "js ''What is x?''" demo_state "UUID (js ''7'')" "js ''t1''" demo_state]
  note T2 = voice_transcript_forwarded [OF ok, of "JObj [(js ''transcript'', JStr (js ''  ''))]"
      "js ''What is x?''" demo_state "UUID (js ''7'')" "js ''t1''" demo_state]
  from T1 h1
  have f: "onstop_resume demo_state (UUID (js ''7'')) (js ''t1'')
       (FetchResponse 200 (Inr (JObj [(js ''question'', JStr (js ''What is x?''))]))) demo_state =
     sendQuery_call demo_state (UUID (js ''7'')) (js ''t1'') (js ''What is x?'') demo_state"
    by blast
  from T2 h2
  have "onstop_resume demo_state (UUID (js ''7'')) (js ''t1'')
       (FetchResponse 200 (Inr (JObj [(js ''transcript'', JStr (js ''  ''))]))) demo_state =
     (demo_state\<lparr>messages := messages demo_state @
          [\<lparr>msg_id = makeId (js ''a-'') (UUID (js ''7'')), msg_role = Assistant,
            msg_content = not_heard_text, msg_createdAt = None\<rparr>]\<rparr>,
      None)"
    by blast
  then have g: "map msg_content (messages (fst (onstop_resume demo_state (UUID (js ''7'')) (js ''t1'')
       (FetchResponse 200 (Inr (JObj [(js ''transcript'', JStr (js ''  ''))]))) demo_state))) =
     [welcome_text, not_heard_text]"
    "snd (onstop_resume demo_state (UUID (js ''7'')) (js ''t1'')
       (FetchResponse 200 (Inr (JObj [(js ''transcript'', JStr (js ''  ''))]))) demo_state) = None"
    by (simp_all add: m)
  from ok h1 h2 f g show ?thesis by blast
qed

section \<open>Claims about the page as a machine\<close>

text \<open>
  C7. The conversation identifier is read from the storage at startup; when an
  identifier is stored (a non-empty one: the page itself only stores \<open>conv-\<close> followed by
  random material, and line 139 takes the empty string for none), a load and every event
  after it leave the stored value as it is and the page shows that identifier, whether
  or not writing would throw; when none is stored, the load generates one and stores it;
  and a second load on the storage the first session left observes the identifier of the
  first, after any events of either session. Reading and, where a value has to be
  stored, writing do not throw here (the stored value persists).
\<close>

theorem conversationId_never_changes:
  fixes rt :: "('n::zero) runtime"
  shows
  "conversationId (ui (first_render now False sto :: 'n page)) = sto conversation_key \<and>
   (sto conversation_key = Some c \<and> c \<noteq> [] \<longrightarrow>
      conversationId (ui (session rt now False e s evs sto)) = Some c \<and>
      localStorage (session rt now False e s evs sto) = sto) \<and>
   (sto conversation_key = None \<longrightarrow>
      conversationId (ui (session rt now False e False evs sto)) = Some (makeId (js ''conv-'') e) \<and>
      localStorage (session rt now False e False evs sto) =
        sto(conversation_key \<mapsto> makeId (js ''conv-'') e)) \<and>
   conversationId (ui (session rt now' False e' s' evs'
       (localStorage (session rt now False e False evs sto)))) =
     conversationId (ui (session rt now False e False evs sto))"
proof (intro conjI impI)
  show "conversationId (ui (first_render now False sto :: 'n page)) = sto conversation_key"
    by (simp add: first_render_def initial_state_def read_conversationId_def getItem_def)
next
  assume a: "sto conversation_key = Some c \<and> c \<noteq> []"
  then have c: "sto conversation_key = Some c" "c \<noteq> []" by simp_all
  show "conversationId (ui (session rt now False e s evs sto)) = Some c"
    using c by (rule session_existing)
  show "localStorage (session rt now False e s evs sto) = sto"
    using c by (rule session_existing)
next
  assume "sto conversation_key = None"
  then have n: "sto conversation_key = None \<or> sto conversation_key = Some []" by simp
  show "conversationId (ui (session rt now False e False evs sto)) = Some (makeId (js ''conv-'') e)"
    using n by (rule session_fresh)
  show "localStorage (session rt now False e False evs sto) =
        sto(conversation_key \<mapsto> makeId (js ''conv-'') e)"
    using n by (rule session_fresh)
next
  let ?sto = "localStorage (session rt now False e False evs sto)"
  obtain c where c: "c \<noteq> []" "conversationId (ui (session rt now False e False evs sto)) = Some c"
      "?sto conversation_key = Some c"
    using session_stores_identifier [of rt now e evs sto] by blast
  have "conversationId (ui (session rt now' False e' s' evs' ?sto)) = Some c"
    using c(3) c(1) by (rule session_existing)
  with c(2)
  show "conversationId (ui (session rt now' False e' s' evs' ?sto)) =
     conversationId (ui (session rt now False e False evs sto))"
    by simp
qed

theorem conversationId_never_changes_witness:
  "demo_storage conversation_key = Some (js ''conv-1'') \<and> js ''conv-1'' \<noteq> [] \<and>
   conversationId (ui (session demo_runtime (js ''t0'') False (UUID (js ''9'')) False
       [(demo_state, ConversationEffect (UUID (js ''10'')) False), (demo_state, RemoveDocument)]
       demo_storage)) = Some (js ''conv-1'') \<and>
   localStorage (session demo_runtime (js ''t0'') False (UUID (js ''9'')) False
       [(demo_state, ConversationEffect (UUID (js ''10'')) False), (demo_state, RemoveDocument)]
       demo_storage) = demo_storage \<and>
   (Map.empty :: local_storage) conversation_key = None \<and>
   conversationId (ui (session demo_runtime (js ''t0'') False (UUID (js ''9'')) False [] Map.empty))
     = Some (js ''conv-9'') \<and>
   conversationId (ui (session demo_runtime (js ''t1'') False (UUID (js ''10'')) False []
       (localStorage (session demo_runtime (js ''t0'') False (UUID (js ''9'')) False [] Map.empty))))
     = Some (js ''conv-9'')"
proof -
  have k: "demo_storage conversation_key = Some (js ''conv-1'')"
    by (simp add: demo_storage_def)
  have n: "js ''conv-1'' \<noteq> []"
    by (simp add: js_def)
  have m: "makeId (js ''conv-'') (UUID (js ''9'')) = js ''conv-9''"
    by (simp add: js_def)
  from conversationId_never_changes [of "js ''t0''" demo_storage "js ''conv-1''" demo_runtime
      "UUID (js ''9'')" False
      "[(demo_state, ConversationEffect (UUID (js ''10'')) False), (demo_state, RemoveDocument)]"]
    k n
  have a: "conversationId (ui (session demo_runtime (js ''t0'') False (UUID (js ''9'')) False
       [(demo_state, ConversationEffect (UUID (js ''10'')) False), (demo_state, RemoveDocument)]
       demo_storage)) = Some (js ''conv-1'')"
    "localStorage (session demo_runtime (js ''t0'') False (UUID (js ''9'')) False
       [(demo_state, ConversationEffect (UUID (js ''10'')) False), (demo_state, RemoveDocument)]
       demo_storage) = demo_storage"
    by simp_all
  note T = conversationId_never_changes [of "js ''t0''" Map.empty "js ''conv-1''" demo_runtime
      "UUID (js ''9'')" False "[]" "js ''t1''" "UUID (js ''10'')" False "[]"]
  from T m
  have b1: "conversationId (ui (session demo_runtime (js ''t0'') False (UUID (js ''9'')) False [] Map.empty))
     = Some (js ''conv-9'')"
    by simp
  from T
  have "conversationId (ui (session demo_runtime (js ''t1'') False (UUID (js ''10'')) False []
       (localStorage (session demo_runtime (js ''t0'') False (UUID (js ''9'')) False [] Map.empty))))
     = conversationId (ui (session demo_runtime (js ''t0'') False (UUID (js ''9'')) False [] Map.empty))"
    by blast
  with b1
  have b2: "conversationId (ui (session demo_runtime (js ''t1'') False (UUID (js ''10'')) False []
       (localStorage (session demo_runtime (js ''t0'') False (UUID (js ''9'')) False [] Map.empty))))
     = Some (js ''conv-9'')"
    by (simp only:)
  have e: "(Map.empty :: local_storage) conversation_key = None" by simp
  from k n a b1 b2 e show ?thesis by blast
qed

text \<open>
  C10. The log starts as exactly one assistant welcome message; every event leaves the
  old log as a prefix of the new one; so after any events from the first render the log
  is not empty, and the view never takes its "No messages yet" branch (line 337).
\<close>

theorem log_never_empty:
  "messages (initial_state now cid) =
     [\<lparr>msg_id = js ''welcome'', msg_role = Assistant, msg_content = welcome_text,
       msg_createdAt = Some now\<rparr>] \<and>
   prefix (messages (ui p)) (messages (ui (step rt r ev p))) \<and>
   prefix (messages (ui p)) (messages (ui (run rt evs p))) \<and>
   messages (ui (run rt evs (first_render now g sto))) \<noteq> [] \<and>
   view_log (ui (run rt evs (first_render now g sto))) \<noteq> NoMessagesYet"
proof -
  have i: "messages (initial_state now cid) =
     [\<lparr>msg_id = js ''welcome'', msg_role = Assistant, msg_content = welcome_text,
       msg_createdAt = Some now\<rparr>]" for cid :: "js_string option"
    by (simp add: initial_state_def)
  from run_messages [of "first_render now g sto" rt evs]
  have n: "messages (ui (run rt evs (first_render now g sto))) \<noteq> []"
    by (auto simp: first_render_def i)
  then have "view_log (ui (run rt evs (first_render now g sto))) \<noteq> NoMessagesYet"
    by (simp add: view_log_def)
  with i n step_messages run_messages show ?thesis by blast
qed

theorem log_never_empty_witness:
  "messages (ui (run demo_runtime
       [(demo_state\<lparr>inputValue := js ''hi''\<rparr>, KeyDownEnter (UUID (js ''7'')) (js ''t1'')),
        (demo_state, QuerySettled (UUID (js ''8'')) (FetchFailed (js ''offline'')))]
       (first_render (js ''t0'') False demo_storage))) \<noteq> [] \<and>
   view_log (ui (run demo_runtime
       [(demo_state\<lparr>inputValue := js ''hi''\<rparr>, KeyDownEnter (UUID (js ''7'')) (js ''t1'')),
        (demo_state, QuerySettled (UUID (js ''8'')) (FetchFailed (js ''offline'')))]
       (first_render (js ''t0'') False demo_storage))) \<noteq> NoMessagesYet \<and>
   map msg_content (messages (ui (run demo_runtime
       [(demo_state\<lparr>inputValue := js ''hi''\<rparr>, KeyDownEnter (UUID (js ''7'')) (js ''t1'')),
        (demo_state, QuerySettled (UUID (js ''8'')) (FetchFailed (js ''offline'')))]
       (first_render (js ''t0'') False demo_storage)))) = [welcome_text, js ''hi'', fallback_text]"
proof -
  have t: "trim (js ''hi'') \<noteq> []"
    by (simp add: trim_def js_def is_white_space_def)
  have c: "map msg_content (messages (ui (run demo_runtime
       [(demo_state\<lparr>inputValue := js ''hi''\<rparr>, KeyDownEnter (UUID (js ''7'')) (js ''t1'')),
        (demo_state, QuerySettled (UUID (js ''8'')) (FetchFailed (js ''offline'')))]
       (first_render (js ''t0'') False demo_storage)))) = [welcome_text, js ''hi'', fallback_text]"
    using t
    by (simp add: step_def first_render_def initial_state_def demo_state_def
          handleSendMessage_call_def sendQuery_call_def pushMessage_def sendQuery_resume_def
          sendQuery_try_def sendQuery_catch_def)
  note T = log_never_empty [of "js ''t0''" None "first_render (js ''t0'') False demo_storage"
      demo_runtime demo_state RemoveDocument
      "[(demo_state\<lparr>inputValue := js ''hi''\<rparr>, KeyDownEnter (UUID (js ''7'')) (js ''t1'')),
        (demo_state, QuerySettled (UUID (js ''8'')) (FetchFailed (js ''offline'')))]"
      False demo_storage]
  from T have n: "messages (ui (run demo_runtime
       [(demo_state\<lparr>inputValue := js ''hi''\<rparr>, KeyDownEnter (UUID (js ''7'')) (js ''t1'')),
        (demo_state, QuerySettled (UUID (js ''8'')) (FetchFailed (js ''offline'')))]
       (first_render (js ''t0'') False demo_storage))) \<noteq> []"
    by blast
  from T have v: "view_log (ui (run demo_runtime
       [(demo_state\<lparr>inputValue := js ''hi''\<rparr>, KeyDownEnter (UUID (js ''7'')) (js ''t1'')),
        (demo_state, QuerySettled (UUID (js ''8'')) (FetchFailed (js ''offline'')))]
       (first_render (js ''t0'') False demo_storage))) \<noteq> NoMessagesYet"
    by blast
  from n v c show ?thesis by blast
qed

end
